theory Spec2Isabelle
  imports Main
begin


section \<open>Game of Life: the simulation core of GameOfLife.py\<close>

text \<open>
  The module-level constants of GameOfLife.py (\<open>GRID_WIDTH = 100\<close>, \<open>GRID_HEIGHT = 60\<close>,
  \<open>CELL_SIZE = 12\<close>, the window geometry) are gathered in one record and passed to every
  function that reads them, so that each result holds for the repository's values
  (\<open>repo_consts\<close>) and can be evaluated on small grids as well.
\<close>

record settings =
  WINDOW_WIDTH :: int
  WINDOW_HEIGHT :: int
  GRID_WIDTH :: nat
  GRID_HEIGHT :: nat
  CELL_SIZE :: int
  SIDEBAR_WIDTH :: int

definition repo_consts :: settings where
  "repo_consts = \<lparr>WINDOW_WIDTH = 1400, WINDOW_HEIGHT = 900, GRID_WIDTH = 100,
     GRID_HEIGHT = 60, CELL_SIZE = 12, SIDEBAR_WIDTH = 320\<rparr>"

subsection \<open>NumPy arrays as lists of rows\<close>

text \<open>
  A two-dimensional integer array is the list of its rows. Indexing follows NumPy (and
  Python lists): an index \<open>i\<close> with \<open>0 \<le> i < n\<close> is itself, one with \<open>-n \<le> i < 0\<close>
  counts from the end, any other raises IndexError, which is the value \<open>None\<close> here.
\<close>

type_synonym grid = "int list list"

definition np_index :: "nat \<Rightarrow> int \<Rightarrow> nat option" where
  "np_index n i =
     (if 0 \<le> i \<and> i < int n then Some (nat i)
      else if - int n \<le> i \<and> i < 0 then Some (nat (i + int n))
      else None)"

definition np_get :: "grid \<Rightarrow> int \<Rightarrow> int \<Rightarrow> int option" where
  "np_get g r c =
     (case np_index (length g) r of
        None \<Rightarrow> None
      | Some i \<Rightarrow>
         (case np_index (length (g ! i)) c of
            None \<Rightarrow> None
          | Some j \<Rightarrow> Some (g ! i ! j)))"

definition np_set :: "grid \<Rightarrow> int \<Rightarrow> int \<Rightarrow> int \<Rightarrow> grid option" where
  "np_set g r c v =
     (case np_index (length g) r of
        None \<Rightarrow> None
      | Some i \<Rightarrow>
         (case np_index (length (g ! i)) c of
            None \<Rightarrow> None
          | Some j \<Rightarrow> Some (g[i := (g ! i)[j := v]])))"

definition np_zeros :: "nat \<Rightarrow> nat \<Rightarrow> grid" where
  "np_zeros h w = replicate h (replicate w 0)"

text \<open>\<open>np.sum\<close> of an integer array: the sum of all its cells.\<close>

definition grid_sum :: "grid \<Rightarrow> int" where
  "grid_sum g = sum_list (map sum_list g)"

text \<open>
  A \<open>for\<close> loop over a list whose body may raise: the body maps the loop's state to
  \<open>Some\<close> new state, or to \<open>None\<close> when it raises, which ends the loop.
\<close>

fun for_each :: "'a list \<Rightarrow> ('a \<Rightarrow> 's \<Rightarrow> 's option) \<Rightarrow> 's \<Rightarrow> 's option" where
  "for_each [] body s = Some s"
| "for_each (x # xs) body s =
     (case body x s of None \<Rightarrow> None | Some s' \<Rightarrow> for_each xs body s')"

text \<open>The shape of an array, and the grids whose cells are all 0 or 1.\<close>

definition has_shape :: "nat \<Rightarrow> nat \<Rightarrow> grid \<Rightarrow> bool" where
  "has_shape h w g = (length g = h \<and> list_all (\<lambda>row. length row = w) g)"

definition binary :: "grid \<Rightarrow> bool" where
  "binary g = list_all (list_all (\<lambda>v. v = 0 \<or> v = 1)) g"

subsection \<open>Statistics and the session state\<close>

text \<open>
  A statistics field holds a Python \<open>int\<close> or, once \<open>np.sum\<close> has written it, a NumPy
  integer scalar (\<open>np.int64\<close>). The two are equal as numbers and differ for
  \<open>json.dump\<close>, which serialises the first and raises TypeError on the second.
  The field \<open>runtime\<close> (wall-clock seconds, a float) is left out.
\<close>

datatype pyint = PyInt int | NpInt int

fun ival :: "pyint \<Rightarrow> int" where
  "ival (PyInt n) = n"
| "ival (NpInt n) = n"

text \<open>Python's \<open>max(a, b)\<close> returns \<open>b\<close> when \<open>b > a\<close> and \<open>a\<close> otherwise.\<close>

definition py_max :: "pyint \<Rightarrow> pyint \<Rightarrow> pyint" where
  "py_max a b = (if ival b > ival a then b else a)"

definition np_sum :: "grid \<Rightarrow> pyint" where
  "np_sum g = NpInt (grid_sum g)"

record statistics =
  generation :: int
  population :: pyint
  births :: int
  deaths :: int
  max_population :: pyint
  total_births :: int
  total_deaths :: int

definition Statistics :: statistics where
  "Statistics = \<lparr>generation = 0, population = PyInt 0, births = 0, deaths = 0,
     max_population = PyInt 0, total_births = 0, total_deaths = 0\<rparr>"

record game =
  grid :: grid
  previous_grid :: grid
  stats :: statistics
  grid_offset_x :: int
  grid_offset_y :: int
  history :: "grid list"
  history_index :: int
  max_history :: nat
  is_drawing :: bool
  draw_mode :: bool

text \<open>\<open>GameOfLife.__init__\<close>, as far as the simulation core goes.\<close>

definition init :: "settings \<Rightarrow> game" where
  "init K =
     \<lparr>grid = np_zeros (GRID_HEIGHT K) (GRID_WIDTH K),
      previous_grid = np_zeros (GRID_HEIGHT K) (GRID_WIDTH K),
      stats = Statistics,
      grid_offset_x =
        (WINDOW_WIDTH K - SIDEBAR_WIDTH K - int (GRID_WIDTH K) * CELL_SIZE K) div 2,
      grid_offset_y = (WINDOW_HEIGHT K - int (GRID_HEIGHT K) * CELL_SIZE K) div 2,
      history = [],
      history_index = - 1,
      max_history = 50,
      is_drawing = False,
      draw_mode = True\<rparr>"

subsection \<open>Neighbour counting and the step (\<open>get_neighbors\<close>, \<open>update_grid\<close>)\<close>

text \<open>
  \<open>get_neighbors\<close> runs over \<open>dr\<close> and \<open>dc\<close> in \<open>[-1, 0, 1]\<close>, skips the centre, and
  adds the cell at \<open>(row + dr, col + dc)\<close> when it lies inside
  \<open>GRID_HEIGHT \<times> GRID_WIDTH\<close>.
\<close>

definition get_neighbors :: "settings \<Rightarrow> grid \<Rightarrow> int \<Rightarrow> int \<Rightarrow> int option" where
  "get_neighbors K g row col =
     for_each (List.product [- 1, 0, 1] [- 1, 0, 1])
       (\<lambda>(dr, dc) count.
          if dr = 0 \<and> dc = 0 then Some count
          else
            (let r = row + dr; c = col + dc in
             if 0 \<le> r \<and> r < int (GRID_HEIGHT K) \<and> 0 \<le> c \<and> c < int (GRID_WIDTH K)
             then (case np_get g r c of None \<Rightarrow> None | Some v \<Rightarrow> Some (count + v))
             else Some count))
       0"

text \<open>
  The body of the double loop of \<open>update_grid\<close>, on the loop's state
  \<open>(new_grid, births, deaths)\<close>; \<open>g\<close> is \<open>self.grid\<close>, which the loop only reads.
\<close>

definition update_cell ::
  "settings \<Rightarrow> grid \<Rightarrow> nat \<Rightarrow> nat \<Rightarrow> grid \<times> int \<times> int \<Rightarrow> (grid \<times> int \<times> int) option" where
  "update_cell K g row col = (\<lambda>(new_grid, births, deaths).
     case get_neighbors K g (int row) (int col) of
       None \<Rightarrow> None
     | Some neighbors \<Rightarrow>
        (case np_get g (int row) (int col) of
           None \<Rightarrow> None
         | Some v \<Rightarrow>
            if v = 1 then
              (if neighbors \<in> set [2, 3] then
                 (case np_set new_grid (int row) (int col) 1 of
                    None \<Rightarrow> None
                  | Some ng \<Rightarrow> Some (ng, births, deaths))
               else Some (new_grid, births, deaths + 1))
            else
              (if neighbors = 3 then
                 (case np_set new_grid (int row) (int col) 1 of
                    None \<Rightarrow> None
                  | Some ng \<Rightarrow> Some (ng, births + 1, deaths))
               else Some (new_grid, births, deaths))))"

definition update_loop :: "settings \<Rightarrow> grid \<Rightarrow> (grid \<times> int \<times> int) option" where
  "update_loop K g =
     for_each [0..<GRID_HEIGHT K]
       (\<lambda>row. for_each [0..<GRID_WIDTH K] (\<lambda>col. update_cell K g row col))
       (np_zeros (GRID_HEIGHT K) (GRID_WIDTH K), 0, 0)"

definition update_grid :: "settings \<Rightarrow> game \<Rightarrow> game option" where
  "update_grid K s =
     (case update_loop K (grid s) of
        None \<Rightarrow> None
      | Some (new_grid, b, d) \<Rightarrow>
          Some (s\<lparr>previous_grid := grid s,
                 grid := new_grid,
                 stats := (stats s)
                   \<lparr>generation := generation (stats s) + 1,
                    births := b,
                    deaths := d,
                    total_births := total_births (stats s) + b,
                    total_deaths := total_deaths (stats s) + d,
                    population := np_sum new_grid,
                    max_population := py_max (max_population (stats s)) (np_sum new_grid)\<rparr>\<rparr>))"

text \<open>
  The step in closed form, as functions of the grid before the step: the count
  over the eight Moore offsets with cells outside the grid skipped, and Conway's rule.
\<close>

definition moore_offsets :: "(int \<times> int) list" where
  "moore_offsets = [(- 1, - 1), (- 1, 0), (- 1, 1), (0, - 1), (0, 1), (1, - 1), (1, 0), (1, 1)]"

definition clamped_cell :: "nat \<Rightarrow> nat \<Rightarrow> grid \<Rightarrow> int \<Rightarrow> int \<Rightarrow> int" where
  "clamped_cell h w g r c =
     (if 0 \<le> r \<and> r < int h \<and> 0 \<le> c \<and> c < int w then g ! nat r ! nat c else 0)"

definition clamped_count :: "nat \<Rightarrow> nat \<Rightarrow> grid \<Rightarrow> int \<Rightarrow> int \<Rightarrow> int" where
  "clamped_count h w g row col =
     (\<Sum>(dr, dc)\<leftarrow>moore_offsets. clamped_cell h w g (row + dr) (col + dc))"

definition count_cells :: "nat \<Rightarrow> nat \<Rightarrow> (nat \<Rightarrow> nat \<Rightarrow> bool) \<Rightarrow> int" where
  "count_cells h w P = (\<Sum>r\<leftarrow>[0..<h]. \<Sum>c\<leftarrow>[0..<w]. if P r c then 1 else 0)"

text \<open>
  The value of one cell after the step, and the cells that count as a birth or a death,
  each read off the grid before the step. The loop invariants below say how far the
  double loop of \<open>update_grid\<close> has got.
\<close>

definition cell_step :: "settings \<Rightarrow> grid \<Rightarrow> nat \<Rightarrow> nat \<Rightarrow> int" where
  "cell_step K g r c =
     (let v = g ! r ! c; n = clamped_count (GRID_HEIGHT K) (GRID_WIDTH K) g (int r) (int c)
      in if v = 1 then (if n = 2 \<or> n = 3 then 1 else 0) else (if n = 3 then 1 else 0))"

definition is_birth :: "settings \<Rightarrow> grid \<Rightarrow> nat \<Rightarrow> nat \<Rightarrow> bool" where
  "is_birth K g r c =
     (g ! r ! c \<noteq> 1 \<and> clamped_count (GRID_HEIGHT K) (GRID_WIDTH K) g (int r) (int c) = 3)"

definition is_death :: "settings \<Rightarrow> grid \<Rightarrow> nat \<Rightarrow> nat \<Rightarrow> bool" where
  "is_death K g r c =
     (g ! r ! c = 1 \<and> \<not> (clamped_count (GRID_HEIGHT K) (GRID_WIDTH K) g (int r) (int c) = 2
        \<or> clamped_count (GRID_HEIGHT K) (GRID_WIDTH K) g (int r) (int c) = 3))"

definition row_inv ::
  "settings \<Rightarrow> grid \<Rightarrow> nat \<Rightarrow> grid \<times> int \<times> int \<Rightarrow> nat \<Rightarrow> grid \<times> int \<times> int \<Rightarrow> bool" where
  "row_inv K g r start k t =
     (case (start, t) of ((new, b, d), (new', b', d')) \<Rightarrow>
        has_shape (GRID_HEIGHT K) (GRID_WIDTH K) new' \<and>
        (\<forall>r' < GRID_HEIGHT K. \<forall>c' < GRID_WIDTH K.
           new' ! r' ! c' =
             (if r' = r \<and> c' < k \<and> cell_step K g r c' = 1 then 1 else new ! r' ! c')) \<and>
        b' = b + (\<Sum>c\<leftarrow>[0..<k]. if is_birth K g r c then 1 else 0) \<and>
        d' = d + (\<Sum>c\<leftarrow>[0..<k]. if is_death K g r c then 1 else 0))"

definition grid_inv ::
  "settings \<Rightarrow> grid \<Rightarrow> grid \<times> int \<times> int \<Rightarrow> nat \<Rightarrow> grid \<times> int \<times> int \<Rightarrow> bool" where
  "grid_inv K g start k t =
     (case (start, t) of ((new, b, d), (new', b', d')) \<Rightarrow>
        has_shape (GRID_HEIGHT K) (GRID_WIDTH K) new' \<and>
        (\<forall>r' < GRID_HEIGHT K. \<forall>c' < GRID_WIDTH K.
           new' ! r' ! c' =
             (if r' < k \<and> cell_step K g r' c' = 1 then 1 else new ! r' ! c')) \<and>
        b' = b + count_cells k (GRID_WIDTH K) (is_birth K g) \<and>
        d' = d + count_cells k (GRID_WIDTH K) (is_death K g))"

definition step_grid :: "settings \<Rightarrow> grid \<Rightarrow> grid" where
  "step_grid K g =
     map (\<lambda>r. map (\<lambda>c. cell_step K g r c) [0..<GRID_WIDTH K]) [0..<GRID_HEIGHT K]"

subsection \<open>The step of GameOfLife_Gemini.py: a convolution with wrap-around\<close>

text \<open>
  \<open>scipy.signal.convolve2d(a, k, mode='same', boundary='wrap')\<close> for a 3 by 3 kernel
  \<open>k\<close>, after SciPy's documentation: the full convolution is
  \<open>out[i, j] = sum over m, n of k[m, n] * a[i - m, j - n]\<close>, \<open>mode='same'\<close> keeps the part
  centred on the input (an offset of 1 for a kernel of size 3), and \<open>boundary='wrap'\<close>
  reads \<open>a\<close> at indices taken modulo its height and width.
\<close>

definition kernel :: grid where
  "kernel = [[1, 1, 1], [1, 0, 1], [1, 1, 1]]"

definition convolve2d_same_wrap :: "grid \<Rightarrow> grid \<Rightarrow> grid" where
  "convolve2d_same_wrap a k =
     (let h = length a; w = (case a of [] \<Rightarrow> 0 | row # _ \<Rightarrow> length row) in
      map (\<lambda>i. map (\<lambda>j.
             \<Sum>(m, n)\<leftarrow>List.product [0, 1, 2] [0, 1, 2].
                k ! m ! n *
                a ! nat ((int i + 1 - int m) mod int h) ! nat ((int j + 1 - int n) mod int w))
           [0..<w])
        [0..<h])"

text \<open>
  One cell of \<open>(born | survives).astype(np.uint8)\<close>, where
  \<open>born = (grid == 0) & (neighbor_count == 3)\<close> and
  \<open>survives = (grid == 1) & ((neighbor_count == 2) | (neighbor_count == 3))\<close>.
\<close>

definition born_or_survives :: "int \<Rightarrow> int \<Rightarrow> int" where
  "born_or_survives v n =
     (let born = (v = 0 \<and> n = 3); survives = (v = 1 \<and> (n = 2 \<or> n = 3))
      in if born \<or> survives then 1 else 0)"

record gemini =
  gm_grid :: grid
  gm_prev_grid :: grid
  gm_generation :: int

definition step :: "gemini \<Rightarrow> gemini" where
  "step s =
     (let neighbor_count = convolve2d_same_wrap (gm_grid s) kernel in
      s\<lparr>gm_prev_grid := gm_grid s,
        gm_grid := map2 (\<lambda>row counts. map2 born_or_survives row counts)
                     (gm_grid s) neighbor_count,
        gm_generation := gm_generation s + 1\<rparr>)"

text \<open>
  The naive per-cell scan under the toroidal policy, in the words of the specification:
  the eight Moore offsets, with out-of-range coordinates taken modulo the height and the
  width.
\<close>

definition toroidal_count :: "nat \<Rightarrow> nat \<Rightarrow> grid \<Rightarrow> int \<Rightarrow> int \<Rightarrow> int" where
  "toroidal_count h w g row col =
     (\<Sum>(dr, dc)\<leftarrow>moore_offsets.
        g ! nat ((row + dr) mod int h) ! nat ((col + dc) mod int w))"

subsection \<open>History: \<open>save_to_history\<close>, \<open>undo\<close>, \<open>redo\<close>\<close>

text \<open>
  Every snapshot is taken with \<open>self.grid.copy()\<close> and installed with \<open>.copy()\<close>, so
  a history entry shares no storage with the live grid; entries are values here.
  \<open>xs[:k]\<close> is Python's slice, \<open>xs[i]\<close> Python's indexing (IndexError is \<open>None\<close>).
\<close>

definition py_slice_to :: "'a list \<Rightarrow> int \<Rightarrow> 'a list" where
  "py_slice_to xs k =
     (if 0 \<le> k then take (nat k) xs else take (nat (int (length xs) + k)) xs)"

definition py_list_get :: "'a list \<Rightarrow> int \<Rightarrow> 'a option" where
  "py_list_get xs i = (case np_index (length xs) i of None \<Rightarrow> None | Some j \<Rightarrow> Some (xs ! j))"

definition save_to_history :: "game \<Rightarrow> game" where
  "save_to_history s =
     (let h1 = (if history_index s < int (length (history s)) - 1
                then py_slice_to (history s) (history_index s + 1)
                else history s);
          h2 = h1 @ [grid s]
      in if length h2 > max_history s
         then s\<lparr>history := tl h2\<rparr>
         else s\<lparr>history := h2, history_index := history_index s + 1\<rparr>)"

definition undo :: "game \<Rightarrow> game option" where
  "undo s =
     (if history_index s > 0 then
        (let i = history_index s - 1 in
         case py_list_get (history s) i of
           None \<Rightarrow> None
         | Some g \<Rightarrow> Some (s\<lparr>history_index := i, grid := g\<rparr>))
      else Some s)"

definition redo :: "game \<Rightarrow> game option" where
  "redo s =
     (if history_index s < int (length (history s)) - 1 then
        (let i = history_index s + 1 in
         case py_list_get (history s) i of
           None \<Rightarrow> None
         | Some g \<Rightarrow> Some (s\<lparr>history_index := i, grid := g\<rparr>))
      else Some s)"

text \<open>
  Sequences of history operations. \<open>Mutate g\<close> stands for any change of the live grid
  between two of them (drawing, a step, a load): it assigns the grid and leaves the
  history alone.
\<close>

datatype action = Record | Undo | Redo | Mutate grid

fun apply_action :: "action \<Rightarrow> game \<Rightarrow> game option" where
  "apply_action Record s = Some (save_to_history s)"
| "apply_action Undo s = undo s"
| "apply_action Redo s = redo s"
| "apply_action (Mutate g) s = Some (s\<lparr>grid := g\<rparr>)"

definition run_actions :: "action list \<Rightarrow> game \<Rightarrow> game option" where
  "run_actions acts s = for_each acts apply_action s"

definition history_ok :: "game \<Rightarrow> bool" where
  "history_ok s =
     (length (history s) \<le> 50 \<and>
      (history s \<noteq> [] \<longrightarrow>
         0 \<le> history_index s \<and> history_index s < int (length (history s))))"

text \<open>The invariant of the cursor that the three operations keep.\<close>

definition cursor_inv :: "game \<Rightarrow> bool" where
  "cursor_inv s =
     (0 < max_history s \<and> length (history s) \<le> max_history s \<and>
      (if history s = [] then history_index s = - 1
       else 0 \<le> history_index s \<and> history_index s < int (length (history s))))"

subsection \<open>Patterns and editing: \<open>place_pattern\<close>, \<open>toggle_cell\<close>, \<open>fill_random\<close>, \<open>clear_grid\<close>\<close>

record pattern =
  name :: string
  pattern :: grid
  description :: string
  height :: nat
  width :: nat

text \<open>
  \<open>Pattern.__init__\<close>: \<open>np.array(pattern)\<close> and \<open>self.height, self.width = shape\<close>.
  An empty or ragged list of rows has no two-dimensional shape and the constructor raises.
\<close>

definition Pattern :: "string \<Rightarrow> grid \<Rightarrow> string \<Rightarrow> pattern option" where
  "Pattern n p d =
     (case p of
        [] \<Rightarrow> None
      | row # _ \<Rightarrow>
          if list_all (\<lambda>r. length r = length row) p
          then Some \<lparr>name = n, pattern = p, description = d,
                      height = length p, width = length row\<rparr>
          else None)"

definition pattern_ok :: "pattern \<Rightarrow> bool" where
  "pattern_ok p = has_shape (height p) (width p) (pattern p)"

text \<open>Python's \<open>a // b\<close>: floor division, ZeroDivisionError (\<open>None\<close>) when \<open>b = 0\<close>.\<close>

definition py_floordiv :: "int \<Rightarrow> int \<Rightarrow> int option" where
  "py_floordiv a b = (if b = 0 then None else Some (a div b))"

definition place_cell ::
  "settings \<Rightarrow> pattern \<Rightarrow> int \<Rightarrow> int \<Rightarrow> nat \<Rightarrow> nat \<Rightarrow> grid \<Rightarrow> grid option" where
  "place_cell K p grid_x grid_y row col g =
     (let grid_row = grid_y + int row; grid_col = grid_x + int col in
      if 0 \<le> grid_row \<and> grid_row < int (GRID_HEIGHT K) \<and>
         0 \<le> grid_col \<and> grid_col < int (GRID_WIDTH K)
      then (case np_get (pattern p) (int row) (int col) of
              None \<Rightarrow> None
            | Some v \<Rightarrow> np_set g grid_row grid_col v)
      else Some g)"

definition place_pattern :: "settings \<Rightarrow> pattern \<Rightarrow> int \<Rightarrow> int \<Rightarrow> game \<Rightarrow> game option" where
  "place_pattern K p x y s =
     (case (py_floordiv (x - grid_offset_x s) (CELL_SIZE K),
            py_floordiv (y - grid_offset_y s) (CELL_SIZE K)) of
        (Some grid_x, Some grid_y) \<Rightarrow>
          if 0 \<le> grid_x \<and> grid_x < int (GRID_WIDTH K) \<and>
             0 \<le> grid_y \<and> grid_y < int (GRID_HEIGHT K)
          then
            (let s1 = save_to_history s in
             case for_each [0..<height p]
                    (\<lambda>row. for_each [0..<width p]
                       (\<lambda>col. place_cell K p grid_x grid_y row col))
                    (grid s1) of
               None \<Rightarrow> None
             | Some g \<Rightarrow> Some (s1\<lparr>grid := g\<rparr>))
          else Some s
      | _ \<Rightarrow> None)"

definition toggle_cell :: "settings \<Rightarrow> int \<Rightarrow> int \<Rightarrow> game \<Rightarrow> game option" where
  "toggle_cell K x y s =
     (case (py_floordiv (x - grid_offset_x s) (CELL_SIZE K),
            py_floordiv (y - grid_offset_y s) (CELL_SIZE K)) of
        (Some grid_x, Some grid_y) \<Rightarrow>
          if 0 \<le> grid_x \<and> grid_x < int (GRID_WIDTH K) \<and>
             0 \<le> grid_y \<and> grid_y < int (GRID_HEIGHT K)
          then
            (let s1 = (if \<not> is_drawing s then (save_to_history s)\<lparr>is_drawing := True\<rparr>
                       else s)
             in case np_set (grid s1) grid_y grid_x (if draw_mode s1 then 1 else 0) of
                  None \<Rightarrow> None
                | Some g \<Rightarrow> Some (s1\<lparr>grid := g\<rparr>))
          else Some s
      | _ \<Rightarrow> None)"

text \<open>
  \<open>np.random.choice([0, 1], size=(h, w), p=...)\<close> returns an \<open>h\<close> by \<open>w\<close> array whose
  cells are elements of the list it is given. Which element each cell gets is the
  generator's draw, a parameter here (\<open>draw r c\<close> is the index drawn for cell
  \<open>(r, c)\<close>); the weights \<open>p\<close> bear on the distribution of the draws only.
\<close>

definition np_random_choice :: "int list \<Rightarrow> nat \<Rightarrow> nat \<Rightarrow> (nat \<Rightarrow> nat \<Rightarrow> nat) \<Rightarrow> grid" where
  "np_random_choice options h w draw =
     map (\<lambda>r. map (\<lambda>c. options ! (draw r c mod length options)) [0..<w]) [0..<h]"

definition fill_random :: "settings \<Rightarrow> (nat \<Rightarrow> nat \<Rightarrow> nat) \<Rightarrow> game \<Rightarrow> game" where
  "fill_random K draw s =
     (let s1 = save_to_history s
      in s1\<lparr>grid := np_random_choice [0, 1] (GRID_HEIGHT K) (GRID_WIDTH K) draw\<rparr>)"

definition clear_grid :: "settings \<Rightarrow> game \<Rightarrow> game" where
  "clear_grid K s =
     (let s1 = save_to_history s
      in s1\<lparr>grid := np_zeros (GRID_HEIGHT K) (GRID_WIDTH K), stats := Statistics\<rparr>)"

text \<open>
  What the pattern loop leaves in one cell: the pattern's value (alive or dead) where the
  pattern covers the cell, the old value elsewhere.
\<close>

definition stamped :: "pattern \<Rightarrow> int \<Rightarrow> int \<Rightarrow> grid \<Rightarrow> nat \<Rightarrow> nat \<Rightarrow> int" where
  "stamped p grid_x grid_y g r c =
     (if grid_y \<le> int r \<and> int r < grid_y + int (height p) \<and>
         grid_x \<le> int c \<and> int c < grid_x + int (width p)
      then pattern p ! nat (int r - grid_y) ! nat (int c - grid_x)
      else g ! r ! c)"

subsection \<open>Small sessions on which the results are evaluated\<close>

definition tiny :: settings where
  "tiny = \<lparr>WINDOW_WIDTH = 356, WINDOW_HEIGHT = 36, GRID_WIDTH = 3,
     GRID_HEIGHT = 3, CELL_SIZE = 12, SIDEBAR_WIDTH = 320\<rparr>"

definition blinker_grid :: grid where
  "blinker_grid = [[0, 1, 0], [0, 1, 0], [0, 1, 0]]"

definition blinker_game :: game where
  "blinker_game = (init tiny)\<lparr>grid := blinker_grid\<rparr>"

definition blinker_gemini :: gemini where
  "blinker_gemini = \<lparr>gm_grid = blinker_grid, gm_prev_grid = np_zeros 3 3, gm_generation = 0\<rparr>"

text \<open>A pattern of one row, a dead cell followed by an alive one.\<close>

definition dead_alive :: pattern where
  "dead_alive = \<lparr>name = ''dead-alive'', pattern = [[0, 1]], description = [],
     height = 1, width = 2\<rparr>"

subsection \<open>Persistence: \<open>save_pattern\<close> and \<open>load_pattern\<close>\<close>

text \<open>
  The values \<open>json.load\<close> returns and \<open>json.dump\<close> accepts (floats left out). A file
  is missing, holds text that is not JSON, or holds the text of one JSON value;
  \<open>json.dump\<close> followed by \<open>json.load\<close> gives the value back, which is the library's
  contract and is what \<open>Text\<close> stands for.
\<close>

datatype json =
  JNull | JBool bool | JInt int | JStr string | JArr "json list" | JObj "(string \<times> json) list"

datatype file_content = Missing | Malformed | Text json

text \<open>
  \<open>json.dump\<close> writes a Python \<open>int\<close> and raises TypeError on a NumPy integer
  (\<open>Object of type int64 is not JSON serializable\<close>).
\<close>

fun json_of_pyint :: "pyint \<Rightarrow> json option" where
  "json_of_pyint (PyInt n) = Some (JInt n)"
| "json_of_pyint (NpInt n) = None"

definition tolist :: "grid \<Rightarrow> json" where
  "tolist g = JArr (map (\<lambda>row. JArr (map JInt row)) g)"

text \<open>
  \<open>save_pattern\<close>: the new content of the file. \<open>open(filename, 'w')\<close> empties the
  file and \<open>json.dump\<close> writes the value piece by piece, so a TypeError in the middle
  leaves an unfinished text behind; the handler prints and the session goes on.
\<close>

definition save_pattern :: "game \<Rightarrow> file_content" where
  "save_pattern s =
     (case (json_of_pyint (population (stats s)), json_of_pyint (max_population (stats s))) of
        (Some p, Some m) \<Rightarrow>
          Text (JObj [(''grid'', tolist (grid s)),
                      (''stats'', JObj [(''generation'', JInt (generation (stats s))),
                                        (''population'', p),
                                        (''max_population'', m),
                                        (''total_births'', JInt (total_births (stats s))),
                                        (''total_deaths'', JInt (total_deaths (stats s)))])])
      | _ \<Rightarrow> Malformed)"

text \<open>
  \<open>np.array(v)\<close> for the value under \<open>"grid"\<close>: a non-empty list of non-empty rows of
  equal length, all 64-bit integers, becomes the integer matrix. Any other value makes
  an array of another type or rank (or raises, depending on the NumPy version); such a
  grid is outside this model (\<open>None\<close>).
\<close>

fun int64_of_json :: "json \<Rightarrow> int option" where
  "int64_of_json (JInt n) = (if - (2 ^ 63) \<le> n \<and> n < 2 ^ 63 then Some n else None)"
| "int64_of_json _ = None"

fun those_ints :: "json list \<Rightarrow> int list option" where
  "those_ints [] = Some []"
| "those_ints (v # vs) =
     (case int64_of_json v of
        None \<Rightarrow> None
      | Some n \<Rightarrow> (case those_ints vs of None \<Rightarrow> None | Some ns \<Rightarrow> Some (n # ns)))"

fun row_of_json :: "json \<Rightarrow> int list option" where
  "row_of_json (JArr vs) = (if vs = [] then None else those_ints vs)"
| "row_of_json _ = None"

fun those_rows :: "json list \<Rightarrow> grid option" where
  "those_rows [] = Some []"
| "those_rows (v # vs) =
     (case row_of_json v of
        None \<Rightarrow> None
      | Some r \<Rightarrow> (case those_rows vs of None \<Rightarrow> None | Some rs \<Rightarrow> Some (r # rs)))"

fun np_array :: "json \<Rightarrow> grid option" where
  "np_array (JArr vs) =
     (case those_rows vs of
        None \<Rightarrow> None
      | Some [] \<Rightarrow> None
      | Some (r # rs) \<Rightarrow>
          if list_all (\<lambda>r'. length r' = length r) rs then Some (r # rs) else None)"
| "np_array _ = None"

text \<open>
  \<open>stats_data.get(key, 0)\<close> on a dictionary. An integer is stored as it is; a value
  of another type would be stored as well, and is outside this model (\<open>None\<close>).
\<close>

definition get_int :: "(string \<times> json) list \<Rightarrow> string \<Rightarrow> int option" where
  "get_int kvs key =
     (case map_of kvs key of
        None \<Rightarrow> Some 0
      | Some (JInt n) \<Rightarrow> Some n
      | Some _ \<Rightarrow> None)"

text \<open>
  The outcome of \<open>load_pattern\<close>: it ran to its end (\<open>Loaded\<close>), or an exception was
  raised and caught by its handler, which prints and leaves the session as it was at
  the raise (\<open>Failed\<close>), or the blob holds a value this model does not cover
  (\<open>Out_of_model\<close>).
\<close>

datatype load_result = Loaded game | Failed game | Out_of_model

definition load_stats :: "(string \<times> json) list \<Rightarrow> statistics \<Rightarrow> statistics option" where
  "load_stats kvs st =
     (case (get_int kvs ''generation'', get_int kvs ''population'',
            get_int kvs ''max_population'', get_int kvs ''total_births'',
            get_int kvs ''total_deaths'') of
        (Some g, Some p, Some m, Some tb, Some td) \<Rightarrow>
          Some (st\<lparr>generation := g, population := PyInt p, max_population := PyInt m,
                    total_births := tb, total_deaths := td\<rparr>)
      | _ \<Rightarrow> None)"

definition load_pattern :: "file_content \<Rightarrow> game \<Rightarrow> load_result" where
  "load_pattern f s =
     (case f of
        Missing \<Rightarrow> Failed s
      | Malformed \<Rightarrow> Failed s
      | Text data \<Rightarrow>
          (let s1 = save_to_history s in
           case data of
             JObj kvs \<Rightarrow>
               (case map_of kvs ''grid'' of
                  None \<Rightarrow> Failed s1
                | Some v \<Rightarrow>
                    (case np_array v of
                       None \<Rightarrow> Out_of_model
                     | Some g \<Rightarrow>
                         (let s2 = s1\<lparr>grid := g\<rparr> in
                          case map_of kvs ''stats'' of
                            None \<Rightarrow> Loaded s2
                          | Some (JObj stats_data) \<Rightarrow>
                              (case load_stats stats_data (stats s2) of
                                 None \<Rightarrow> Out_of_model
                               | Some st \<Rightarrow> Loaded (s2\<lparr>stats := st\<rparr>))
                          | Some _ \<Rightarrow> Failed s2)))
           | _ \<Rightarrow> Failed s1))"

text \<open>The five statistics fields the blob carries, as numbers.\<close>

definition persisted :: "statistics \<Rightarrow> int list" where
  "persisted st =
     [generation st, ival (population st), ival (max_population st),
      total_births st, total_deaths st]"

section \<open>Lemmas on the embedding\<close>

subsection \<open>The step: the loops of \<open>update_grid\<close> in closed form\<close>

lemma np_index_nat: "i < n \<Longrightarrow> np_index n (int i) = Some i"
  by (simp add: np_index_def)

lemma np_index_in: "0 \<le> i \<Longrightarrow> i < int n \<Longrightarrow> np_index n i = Some (nat i)"
  by (simp add: np_index_def)

lemma has_shape_row: "has_shape h w g \<Longrightarrow> r < h \<Longrightarrow> length (g ! r) = w"
  by (auto simp: has_shape_def list_all_length)

lemma has_shape_length: "has_shape h w g \<Longrightarrow> length g = h"
  by (simp add: has_shape_def)

lemma np_get_in:
  "has_shape h w g \<Longrightarrow> 0 \<le> r \<Longrightarrow> r < int h \<Longrightarrow> 0 \<le> c \<Longrightarrow> c < int w \<Longrightarrow>
   np_get g r c = Some (g ! nat r ! nat c)"
  by (simp add: np_get_def np_index_in has_shape_length has_shape_row)

lemma np_set_in:
  "has_shape h w g \<Longrightarrow> r < h \<Longrightarrow> c < w \<Longrightarrow>
   np_set g (int r) (int c) v = Some (g[r := (g ! r)[c := v]])"
  by (simp add: np_set_def np_index_nat has_shape_length has_shape_row)

lemma has_shape_update:
  "has_shape h w g \<Longrightarrow> has_shape h w (g[r := (g ! r)[c := v]])"
  by (cases "r < length g") (auto simp: has_shape_def list_all_length nth_list_update)

lemma has_shape_zeros: "has_shape h w (np_zeros h w)"
  by (simp add: has_shape_def np_zeros_def list_all_length)

lemma neighbor_body:
  "has_shape h w g \<Longrightarrow>
   (if 0 \<le> r \<and> r < int h \<and> 0 \<le> c \<and> c < int w
    then (case np_get g r c of None \<Rightarrow> None | Some v \<Rightarrow> Some (count + v))
    else Some count) = Some (count + clamped_cell h w g r c)"
  by (simp add: clamped_cell_def np_get_in)

lemma get_neighbors_eq:
  assumes "has_shape (GRID_HEIGHT K) (GRID_WIDTH K) g"
  shows "get_neighbors K g row col = Some (clamped_count (GRID_HEIGHT K) (GRID_WIDTH K) g row col)"
  unfolding get_neighbors_def clamped_count_def moore_offsets_def
  by (simp add: Let_def neighbor_body[OF assms])

lemma for_each_append:
  "for_each (xs @ ys) body s =
     (case for_each xs body s of None \<Rightarrow> None | Some t \<Rightarrow> for_each ys body t)"
  by (induction xs arbitrary: s) (auto split: option.splits)

lemma for_each_upt_invariant:
  assumes "P 0 s"
    and "\<And>i t. i < n \<Longrightarrow> P i t \<Longrightarrow> \<exists>t'. body i t = Some t' \<and> P (Suc i) t'"
  shows "\<exists>t. for_each [0..<n] body s = Some t \<and> P n t"
  using assms
proof (induction n)
  case 0
  then show ?case by simp
next
  case (Suc n)
  have "\<exists>t. for_each [0..<n] body s = Some t \<and> P n t"
    using Suc.IH Suc.prems by (meson less_Suc_eq)
  then obtain t where t: "for_each [0..<n] body s = Some t" "P n t" by blast
  obtain t' where t': "body n t = Some t'" "P (Suc n) t'"
    using Suc.prems(2)[of n t] t(2) by blast
  show ?case using t t' by (simp add: for_each_append)
qed

lemma update_cell_eq:
  assumes g: "has_shape (GRID_HEIGHT K) (GRID_WIDTH K) g"
    and new: "has_shape (GRID_HEIGHT K) (GRID_WIDTH K) new"
    and r: "r < GRID_HEIGHT K" and c: "c < GRID_WIDTH K"
  shows "update_cell K g r c (new, b, d) =
     Some (if cell_step K g r c = 1 then new[r := (new ! r)[c := 1]] else new,
           b + (if is_birth K g r c then 1 else 0),
           d + (if is_death K g r c then 1 else 0))"
  using r c
  by (simp add: update_cell_def get_neighbors_eq[OF g] np_get_in[OF g] np_set_in[OF new]
      cell_step_def is_birth_def is_death_def Let_def)

lemma row_inv_step:
  assumes g: "has_shape (GRID_HEIGHT K) (GRID_WIDTH K) g"
    and r: "r < GRID_HEIGHT K" and i: "i < GRID_WIDTH K"
    and inv: "row_inv K g r start i t"
  shows "\<exists>t'. update_cell K g r i t = Some t' \<and> row_inv K g r start (Suc i) t'"
proof -
  obtain new b d where start: "start = (new, b, d)" by (cases start) auto
  obtain new' b' d' where t: "t = (new', b', d')" by (cases t) auto
  have sh: "has_shape (GRID_HEIGHT K) (GRID_WIDTH K) new'"
    using inv by (simp add: row_inv_def start t)
  have cells: "\<And>r' c'. r' < GRID_HEIGHT K \<Longrightarrow> c' < GRID_WIDTH K \<Longrightarrow>
      new' ! r' ! c' = (if r' = r \<and> c' < i \<and> cell_step K g r c' = 1 then 1 else new ! r' ! c')"
    using inv by (simp add: row_inv_def start t)
  have b': "b' = b + (\<Sum>c\<leftarrow>[0..<i]. if is_birth K g r c then 1 else 0)"
    and d': "d' = d + (\<Sum>c\<leftarrow>[0..<i]. if is_death K g r c then 1 else 0)"
    using inv by (simp_all add: row_inv_def start t)
  let ?new'' = "if cell_step K g r i = 1 then new'[r := (new' ! r)[i := 1]] else new'"
  have eq: "update_cell K g r i t =
      Some (?new'', b' + (if is_birth K g r i then 1 else 0),
            d' + (if is_death K g r i then 1 else 0))"
    unfolding t by (rule update_cell_eq[OF g sh r i])
  have sh'': "has_shape (GRID_HEIGHT K) (GRID_WIDTH K) ?new''"
    using sh by (simp add: has_shape_update)
  have len: "length new' = GRID_HEIGHT K" "length (new' ! r) = GRID_WIDTH K"
    using sh r by (simp_all add: has_shape_length has_shape_row)
  have cells'': "new'' ! r' ! c' =
      (if r' = r \<and> c' < Suc i \<and> cell_step K g r c' = 1 then 1 else new ! r' ! c')"
    if "r' < GRID_HEIGHT K" "c' < GRID_WIDTH K" "new'' = ?new''" for r' c' new''
    using that cells[of r' c'] len r i
    by (auto simp: nth_list_update less_Suc_eq)
  show ?thesis
    unfolding eq using sh'' cells'' b' d'
    by (simp add: row_inv_def start)
qed

lemma update_row:
  assumes g: "has_shape (GRID_HEIGHT K) (GRID_WIDTH K) g"
    and new: "has_shape (GRID_HEIGHT K) (GRID_WIDTH K) new"
    and r: "r < GRID_HEIGHT K"
  shows "\<exists>t. for_each [0..<GRID_WIDTH K] (\<lambda>col. update_cell K g r col) (new, b, d) = Some t
           \<and> row_inv K g r (new, b, d) (GRID_WIDTH K) t"
proof (rule for_each_upt_invariant[where P = "row_inv K g r (new, b, d)"])
  show "row_inv K g r (new, b, d) 0 (new, b, d)"
    using new by (simp add: row_inv_def)
next
  fix i t
  assume "i < GRID_WIDTH K" "row_inv K g r (new, b, d) i t"
  then show "\<exists>t'. update_cell K g r i t = Some t' \<and> row_inv K g r (new, b, d) (Suc i) t'"
    using row_inv_step[OF g r] by blast
qed

lemma count_cells_Suc:
  "count_cells (Suc k) w P = count_cells k w P + (\<Sum>c\<leftarrow>[0..<w]. if P k c then 1 else 0)"
  by (simp add: count_cells_def)

lemma grid_inv_step:
  assumes g: "has_shape (GRID_HEIGHT K) (GRID_WIDTH K) g"
    and i: "i < GRID_HEIGHT K"
    and inv: "grid_inv K g start i t"
  shows "\<exists>t'. for_each [0..<GRID_WIDTH K] (\<lambda>col. update_cell K g i col) t = Some t'
           \<and> grid_inv K g start (Suc i) t'"
proof -
  obtain new b d where start: "start = (new, b, d)" by (cases start) auto
  obtain new' b' d' where t: "t = (new', b', d')" by (cases t) auto
  have sh: "has_shape (GRID_HEIGHT K) (GRID_WIDTH K) new'"
    using inv by (simp add: grid_inv_def start t)
  have cells: "\<And>r' c'. r' < GRID_HEIGHT K \<Longrightarrow> c' < GRID_WIDTH K \<Longrightarrow>
      new' ! r' ! c' = (if r' < i \<and> cell_step K g r' c' = 1 then 1 else new ! r' ! c')"
    using inv by (simp add: grid_inv_def start t)
  have b': "b' = b + count_cells i (GRID_WIDTH K) (is_birth K g)"
    and d': "d' = d + count_cells i (GRID_WIDTH K) (is_death K g)"
    using inv by (simp_all add: grid_inv_def start t)
  obtain t' where run: "for_each [0..<GRID_WIDTH K] (\<lambda>col. update_cell K g i col) t = Some t'"
    and row: "row_inv K g i (new', b', d') (GRID_WIDTH K) t'"
    using update_row[OF g sh i, of b' d'] unfolding t by blast
  obtain new'' b'' d'' where t': "t' = (new'', b'', d'')" by (cases t') auto
  have sh'': "has_shape (GRID_HEIGHT K) (GRID_WIDTH K) new''"
    using row by (simp add: row_inv_def t')
  have cells'': "new'' ! r' ! c' =
      (if r' < Suc i \<and> cell_step K g r' c' = 1 then 1 else new ! r' ! c')"
    if "r' < GRID_HEIGHT K" "c' < GRID_WIDTH K" for r' c'
  proof -
    have "new'' ! r' ! c' = (if r' = i \<and> cell_step K g i c' = 1 then 1 else new' ! r' ! c')"
      using row that by (simp add: row_inv_def t')
    then show ?thesis using cells[OF that] by (auto simp: less_Suc_eq)
  qed
  have b'': "b'' = b + count_cells (Suc i) (GRID_WIDTH K) (is_birth K g)"
    and d'': "d'' = d + count_cells (Suc i) (GRID_WIDTH K) (is_death K g)"
    using row b' d' by (simp_all add: row_inv_def t' count_cells_Suc)
  show ?thesis
    using run sh'' cells'' b'' d'' by (simp add: grid_inv_def start t')
qed

lemma cell_step_binary: "cell_step K g r c = 0 \<or> cell_step K g r c = 1"
  by (simp add: cell_step_def Let_def)

lemma update_loop_eq:
  assumes g: "has_shape (GRID_HEIGHT K) (GRID_WIDTH K) g"
  shows "update_loop K g =
     Some (step_grid K g,
           count_cells (GRID_HEIGHT K) (GRID_WIDTH K) (is_birth K g),
           count_cells (GRID_HEIGHT K) (GRID_WIDTH K) (is_death K g))"
proof -
  let ?z = "np_zeros (GRID_HEIGHT K) (GRID_WIDTH K)"
  have "\<exists>t. for_each [0..<GRID_HEIGHT K]
          (\<lambda>row. for_each [0..<GRID_WIDTH K] (\<lambda>col. update_cell K g row col)) (?z, 0, 0) = Some t
        \<and> grid_inv K g (?z, 0, 0) (GRID_HEIGHT K) t"
  proof (rule for_each_upt_invariant[where P = "grid_inv K g (?z, 0, 0)"])
    show "grid_inv K g (?z, 0, 0) 0 (?z, 0, 0)"
      by (simp add: grid_inv_def has_shape_zeros count_cells_def)
  next
    fix i t
    assume "i < GRID_HEIGHT K" "grid_inv K g (?z, 0, 0) i t"
    then show "\<exists>t'. for_each [0..<GRID_WIDTH K] (\<lambda>col. update_cell K g i col) t = Some t'
        \<and> grid_inv K g (?z, 0, 0) (Suc i) t'"
      using grid_inv_step[OF g] by blast
  qed
  then obtain new' b' d' where run: "update_loop K g = Some (new', b', d')"
    and inv: "grid_inv K g (?z, 0, 0) (GRID_HEIGHT K) (new', b', d')"
    unfolding update_loop_def by (metis prod_cases3)
  have sh: "has_shape (GRID_HEIGHT K) (GRID_WIDTH K) new'"
    using inv by (simp add: grid_inv_def)
  have cells: "new' ! r ! c = cell_step K g r c"
    if "r < GRID_HEIGHT K" "c < GRID_WIDTH K" for r c
  proof -
    have "new' ! r ! c = (if cell_step K g r c = 1 then 1 else ?z ! r ! c)"
      using inv that by (simp add: grid_inv_def)
    then show ?thesis
      using that cell_step_binary[of K g r c] by (auto simp: np_zeros_def)
  qed
  have "new' = step_grid K g"
  proof (rule nth_equalityI)
    show "length new' = length (step_grid K g)"
      using sh by (simp add: step_grid_def has_shape_length)
  next
    fix r assume "r < length new'"
    then have r: "r < GRID_HEIGHT K" using sh by (simp add: has_shape_length)
    show "new' ! r = step_grid K g ! r"
    proof (rule nth_equalityI)
      show "length (new' ! r) = length (step_grid K g ! r)"
        using sh r by (simp add: step_grid_def has_shape_row)
    next
      fix c assume "c < length (new' ! r)"
      then have c: "c < GRID_WIDTH K" using sh r by (simp add: has_shape_row)
      show "new' ! r ! c = step_grid K g ! r ! c"
        using cells[OF r c] r c by (simp add: step_grid_def)
    qed
  qed
  then show ?thesis using run inv by (simp add: grid_inv_def)
qed

lemma update_grid_eq:
  assumes "has_shape (GRID_HEIGHT K) (GRID_WIDTH K) (grid s)"
  shows "update_grid K s =
     Some (s\<lparr>previous_grid := grid s,
             grid := step_grid K (grid s),
             stats := (stats s)
               \<lparr>generation := generation (stats s) + 1,
                births := count_cells (GRID_HEIGHT K) (GRID_WIDTH K) (is_birth K (grid s)),
                deaths := count_cells (GRID_HEIGHT K) (GRID_WIDTH K) (is_death K (grid s)),
                total_births := total_births (stats s)
                  + count_cells (GRID_HEIGHT K) (GRID_WIDTH K) (is_birth K (grid s)),
                total_deaths := total_deaths (stats s)
                  + count_cells (GRID_HEIGHT K) (GRID_WIDTH K) (is_death K (grid s)),
                population := np_sum (step_grid K (grid s)),
                max_population :=
                  py_max (max_population (stats s)) (np_sum (step_grid K (grid s)))\<rparr>\<rparr>)"
  by (simp add: update_grid_def update_loop_eq[OF assms])

lemma step_grid_nth:
  "r < GRID_HEIGHT K \<Longrightarrow> c < GRID_WIDTH K \<Longrightarrow> step_grid K g ! r ! c = cell_step K g r c"
  by (simp add: step_grid_def)

lemma has_shape_step_grid: "has_shape (GRID_HEIGHT K) (GRID_WIDTH K) (step_grid K g)"
  by (simp add: has_shape_def step_grid_def list_all_length)

subsection \<open>The convolution count is the toroidal scan\<close>

lemma has_shape_width:
  "has_shape h w g \<Longrightarrow> 0 < h \<Longrightarrow> (case g of [] \<Rightarrow> 0 | row # _ \<Rightarrow> length row) = w"
  by (cases g) (auto simp: has_shape_def)

lemma convolve_nth:
  assumes "has_shape h w g" "i < h" "j < w"
  shows "convolve2d_same_wrap g kernel ! i ! j = toroidal_count h w g (int i) (int j)"
proof -
  have h: "length g = h" using assms(1) by (simp add: has_shape_def)
  have w: "(case g of [] \<Rightarrow> 0 | row # _ \<Rightarrow> length row) = w"
    using has_shape_width[OF assms(1)] assms(2) by simp
  show ?thesis
    using assms(2,3)
    by (simp add: convolve2d_same_wrap_def Let_def h w toroidal_count_def moore_offsets_def
        kernel_def algebra_simps)
qed

lemma convolve_shape:
  assumes "has_shape h w g" "0 < h"
  shows "has_shape h w (convolve2d_same_wrap g kernel)"
  using assms has_shape_width[OF assms]
  by (simp add: convolve2d_same_wrap_def Let_def has_shape_def list_all_length)

lemma step_nth:
  assumes "has_shape h w (gm_grid s)" "r < h" "c < w"
  shows "gm_grid (step s) ! r ! c =
     born_or_survives (gm_grid s ! r ! c) (toroidal_count h w (gm_grid s) (int r) (int c))"
proof -
  have sh: "has_shape h w (convolve2d_same_wrap (gm_grid s) kernel)"
    using convolve_shape[OF assms(1)] assms(2) by simp
  have l1: "length (gm_grid s) = h" "length (gm_grid s ! r) = w"
    using assms by (simp_all add: has_shape_length has_shape_row)
  have l2: "length (convolve2d_same_wrap (gm_grid s) kernel) = h"
    "length (convolve2d_same_wrap (gm_grid s) kernel ! r) = w"
    using sh assms(2) by (simp_all add: has_shape_length has_shape_row)
  show ?thesis
    using assms(2,3) l1 l2 convolve_nth[OF assms]
    by (simp add: step_def Let_def)
qed

subsection \<open>Saving and loading\<close>

lemma those_ints_JInt:
  "list_all (\<lambda>v. v = 0 \<or> v = 1) row \<Longrightarrow> those_ints (map JInt row) = Some row"
  by (induction row) auto

lemma those_rows_tolist:
  "list_all (\<lambda>row. row \<noteq> []) g \<Longrightarrow> binary g \<Longrightarrow>
   those_rows (map (\<lambda>row. JArr (map JInt row)) g) = Some g"
  by (induction g) (auto simp: binary_def those_ints_JInt)

lemma np_array_tolist:
  assumes "has_shape h w g" "0 < h" "0 < w" "binary g"
  shows "np_array (tolist g) = Some g"
proof -
  have ne: "list_all (\<lambda>row. row \<noteq> []) g"
    using assms(1,3) by (auto simp: has_shape_def list_all_length)
  obtain r rs where g: "g = r # rs" using assms(1,2) by (cases g) (auto simp: has_shape_def)
  have "list_all (\<lambda>r'. length r' = length r) rs"
    using assms(1) unfolding g by (auto simp: has_shape_def list_all_iff)
  then show ?thesis
    using those_rows_tolist[OF ne assms(4)] by (simp add: tolist_def g)
qed

text \<open>
  On a session whose \<open>population\<close> and \<open>max_population\<close> hold Python integers (a new
  session, or one just cleared or loaded), what \<open>save_pattern\<close> writes is read back by
  \<open>load_pattern\<close> with the same grid and the same five statistics.
\<close>

lemma save_load_round_trip_python_ints:
  assumes "has_shape h w (grid s)" "0 < h" "0 < w" "binary (grid s)"
    and "population (stats s) = PyInt p" "max_population (stats s) = PyInt m"
  shows "\<exists>s1. load_pattern (save_pattern s) s0 = Loaded s1 \<and> grid s1 = grid s \<and>
           persisted (stats s1) = persisted (stats s)"
  using np_array_tolist[OF assms(1-4)] assms(5,6)
  by (simp add: load_pattern_def save_pattern_def Let_def load_stats_def get_int_def
      persisted_def)

subsection \<open>The history cursor\<close>

lemma save_to_history_take:
  assumes "- 1 \<le> history_index s" "history_index s < int (length (history s))"
  shows "(if history_index s < int (length (history s)) - 1
          then py_slice_to (history s) (history_index s + 1) else history s) =
         take (nat (history_index s + 1)) (history s)"
  using assms by (auto simp: py_slice_to_def)

lemma save_to_history_eq:
  assumes "- 1 \<le> history_index s" "history_index s < int (length (history s))"
  shows "save_to_history s =
     (if length (take (nat (history_index s + 1)) (history s) @ [grid s]) > max_history s
      then s\<lparr>history := tl (take (nat (history_index s + 1)) (history s) @ [grid s])\<rparr>
      else s\<lparr>history := take (nat (history_index s + 1)) (history s) @ [grid s],
              history_index := history_index s + 1\<rparr>)"
  unfolding save_to_history_def save_to_history_take[OF assms] Let_def ..

lemma cursor_inv_bounds:
  "cursor_inv s \<Longrightarrow> - 1 \<le> history_index s \<and> history_index s < int (length (history s))"
  by (auto simp: cursor_inv_def split: if_splits)

lemma cursor_inv_save:
  assumes "cursor_inv s"
  shows "cursor_inv (save_to_history s) \<and> max_history (save_to_history s) = max_history s"
proof -
  note b = cursor_inv_bounds[OF assms]
  have e: "save_to_history s =
     (if length (take (nat (history_index s + 1)) (history s) @ [grid s]) > max_history s
      then s\<lparr>history := tl (take (nat (history_index s + 1)) (history s) @ [grid s])\<rparr>
      else s\<lparr>history := take (nat (history_index s + 1)) (history s) @ [grid s],
              history_index := history_index s + 1\<rparr>)"
    using b by (intro save_to_history_eq) auto
  show ?thesis
    unfolding e using assms b
    by (auto simp: cursor_inv_def min_def split: if_splits)
qed

lemma cursor_inv_undo:
  assumes "cursor_inv s"
  shows "\<exists>s'. undo s = Some s' \<and> cursor_inv s' \<and> max_history s' = max_history s"
  using assms
  by (auto simp: undo_def py_list_get_def np_index_def cursor_inv_def Let_def split: if_splits)

lemma cursor_inv_redo:
  assumes "cursor_inv s"
  shows "\<exists>s'. redo s = Some s' \<and> cursor_inv s' \<and> max_history s' = max_history s"
  using assms
  by (auto simp: redo_def py_list_get_def np_index_def cursor_inv_def Let_def split: if_splits)

lemma cursor_inv_action:
  assumes "cursor_inv s"
  shows "\<exists>s'. apply_action a s = Some s' \<and> cursor_inv s' \<and> max_history s' = max_history s"
proof (cases a)
  case Record
  then show ?thesis using cursor_inv_save[OF assms] by simp
next
  case Undo
  then show ?thesis using cursor_inv_undo[OF assms] by simp
next
  case Redo
  then show ?thesis using cursor_inv_redo[OF assms] by simp
next
  case (Mutate g)
  then show ?thesis using assms by (simp add: cursor_inv_def)
qed

lemma cursor_inv_run:
  "cursor_inv s \<Longrightarrow>
   \<exists>s'. run_actions acts s = Some s' \<and> cursor_inv s' \<and> max_history s' = max_history s"
proof (induction acts arbitrary: s)
  case Nil
  then show ?case by (simp add: run_actions_def)
next
  case (Cons a acts)
  from cursor_inv_action[OF Cons.prems, of a] obtain s1 where
    a: "apply_action a s = Some s1" "cursor_inv s1" "max_history s1 = max_history s" by blast
  from Cons.IH[OF a(2)] a show ?case by (simp add: run_actions_def)
qed

lemma cursor_inv_history_ok: "cursor_inv s \<Longrightarrow> max_history s = 50 \<Longrightarrow> history_ok s"
  by (simp add: cursor_inv_def history_ok_def split: if_splits)

subsection \<open>Counting cells\<close>

lemma sum_list_map_cong:
  "(\<And>x. x \<in> set xs \<Longrightarrow> f x = g x) \<Longrightarrow> (\<Sum>x\<leftarrow>xs. f x) = (\<Sum>x\<leftarrow>xs. (g x :: int))"
  by (induction xs) auto

lemma count_cells_cong:
  assumes "\<And>r c. r < h \<Longrightarrow> c < w \<Longrightarrow> P r c = Q r c"
  shows "count_cells h w P = count_cells h w Q"
  unfolding count_cells_def
  by (intro sum_list_map_cong) (simp add: assms)

lemma grid_sum_step_grid:
  "grid_sum (step_grid K g) =
     count_cells (GRID_HEIGHT K) (GRID_WIDTH K) (\<lambda>r c. step_grid K g ! r ! c = 1)"
proof -
  have "grid_sum (step_grid K g) =
      (\<Sum>r\<leftarrow>[0..<GRID_HEIGHT K]. \<Sum>c\<leftarrow>[0..<GRID_WIDTH K]. cell_step K g r c)"
    by (simp add: grid_sum_def step_grid_def comp_def)
  also have "\<dots> = (\<Sum>r\<leftarrow>[0..<GRID_HEIGHT K]. \<Sum>c\<leftarrow>[0..<GRID_WIDTH K].
      if step_grid K g ! r ! c = 1 then 1 else 0)"
  proof (intro sum_list_map_cong)
    fix r c assume "r \<in> set [0..<GRID_HEIGHT K]" "c \<in> set [0..<GRID_WIDTH K]"
    then show "cell_step K g r c = (if step_grid K g ! r ! c = 1 then 1 else 0)"
      using cell_step_binary[of K g r c] by (auto simp: step_grid_nth)
  qed
  finally show ?thesis by (simp add: count_cells_def)
qed

subsection \<open>Counts on grids of zeros and ones\<close>

lemma binary_nth:
  "binary g \<Longrightarrow> r < length g \<Longrightarrow> c < length (g ! r) \<Longrightarrow> g ! r ! c = 0 \<or> g ! r ! c = 1"
  by (simp add: binary_def list_all_length)

lemma binary_cell:
  assumes "has_shape h w g" "binary g" "r < h" "c < w"
  shows "0 \<le> g ! r ! c \<and> g ! r ! c \<le> 1"
  using binary_nth[OF assms(2), of r c] assms
  by (auto simp: has_shape_length has_shape_row)

lemma clamped_cell_range:
  assumes "has_shape h w g" "binary g"
  shows "0 \<le> clamped_cell h w g r c \<and> clamped_cell h w g r c \<le> 1"
proof (cases "0 \<le> r \<and> r < int h \<and> 0 \<le> c \<and> c < int w")
  case True
  then have "nat r < h" "nat c < w" by auto
  from binary_cell[OF assms this] True show ?thesis by (simp add: clamped_cell_def)
next
  case False
  then show ?thesis by (auto simp: clamped_cell_def)
qed

lemma clamped_count_range:
  assumes "has_shape h w g" "binary g"
  shows "0 \<le> clamped_count h w g row col \<and> clamped_count h w g row col \<le> 8"
proof -
  note c = clamped_cell_range[OF assms]
  show ?thesis
    unfolding clamped_count_def moore_offsets_def
    using c[of "row + - 1" "col + - 1"] c[of "row + - 1" "col + 0"] c[of "row + - 1" "col + 1"]
      c[of "row + 0" "col + - 1"] c[of "row + 0" "col + 1"]
      c[of "row + 1" "col + - 1"] c[of "row + 1" "col + 0"] c[of "row + 1" "col + 1"]
    by simp
qed

lemma toroidal_cell_range:
  assumes "has_shape h w g" "binary g" "0 < h" "0 < w"
  shows "0 \<le> g ! nat (r mod int h) ! nat (c mod int w) \<and>
         g ! nat (r mod int h) ! nat (c mod int w) \<le> 1"
proof -
  have "nat (r mod int h) < h" "nat (c mod int w) < w" using assms(3,4) by (simp_all add: nat_less_iff)
  from binary_cell[OF assms(1,2) this] show ?thesis .
qed

lemma toroidal_count_range:
  assumes "has_shape h w g" "binary g" "0 < h" "0 < w"
  shows "0 \<le> toroidal_count h w g row col \<and> toroidal_count h w g row col \<le> 8"
proof -
  note c = toroidal_cell_range[OF assms]
  show ?thesis
    unfolding toroidal_count_def moore_offsets_def
    using c[of "row + - 1" "col + - 1"] c[of "row + - 1" "col + 0"] c[of "row + - 1" "col + 1"]
      c[of "row + 0" "col + - 1"] c[of "row + 0" "col + 1"]
      c[of "row + 1" "col + - 1"] c[of "row + 1" "col + 0"] c[of "row + 1" "col + 1"]
    by simp
qed

subsection \<open>The loop of \<open>place_pattern\<close>\<close>

lemma np_set_int:
  "has_shape h w g \<Longrightarrow> 0 \<le> r \<Longrightarrow> r < int h \<Longrightarrow> 0 \<le> c \<Longrightarrow> c < int w \<Longrightarrow>
   np_set g r c v = Some (g[nat r := (g ! nat r)[nat c := v]])"
  by (simp add: np_set_def np_index_in has_shape_length has_shape_row)

lemma update_nth2:
  assumes "has_shape h w g" "r < h" "c < w" "r' < h" "c' < w"
  shows "g[r := (g ! r)[c := v]] ! r' ! c' = (if r' = r \<and> c' = c then v else g ! r' ! c')"
  using assms by (auto simp: has_shape_length has_shape_row nth_list_update)

lemma place_cell_eq:
  assumes g: "has_shape (GRID_HEIGHT K) (GRID_WIDTH K) g" and p: "pattern_ok p"
    and row: "row < height p" and col: "col < width p"
  shows "\<exists>g'. place_cell K p gx gy row col g = Some g' \<and>
     has_shape (GRID_HEIGHT K) (GRID_WIDTH K) g' \<and>
     (\<forall>r < GRID_HEIGHT K. \<forall>c < GRID_WIDTH K.
        g' ! r ! c = (if int r = gy + int row \<and> int c = gx + int col
                      then pattern p ! row ! col else g ! r ! c))"
proof -
  have v: "np_get (pattern p) (int row) (int col) = Some (pattern p ! row ! col)"
    using np_get_in[OF p[unfolded pattern_ok_def], of "int row" "int col"] row col by simp
  show ?thesis
  proof (cases "0 \<le> gy + int row \<and> gy + int row < int (GRID_HEIGHT K) \<and>
      0 \<le> gx + int col \<and> gx + int col < int (GRID_WIDTH K)")
    case True
    then have s: "np_set g (gy + int row) (gx + int col) (pattern p ! row ! col) =
        Some (g[nat (gy + int row) :=
                (g ! nat (gy + int row))[nat (gx + int col) := pattern p ! row ! col]])"
      by (intro np_set_int[OF g]) auto
    have n: "nat (gy + int row) < GRID_HEIGHT K" "nat (gx + int col) < GRID_WIDTH K"
      using True by auto
    have e: "place_cell K p gx gy row col g =
        Some (g[nat (gy + int row) :=
                (g ! nat (gy + int row))[nat (gx + int col) := pattern p ! row ! col]])"
      using True by (simp add: place_cell_def Let_def v s)
    show ?thesis
      unfolding e using True
      by (auto simp: has_shape_update[OF g] update_nth2[OF g n])
  next
    case False
    then have e: "place_cell K p gx gy row col g = Some g"
      by (auto simp: place_cell_def Let_def)
    show ?thesis unfolding e using g False by auto
  qed
qed

lemma place_row:
  assumes g: "has_shape (GRID_HEIGHT K) (GRID_WIDTH K) g" and p: "pattern_ok p"
    and row: "row < height p"
  shows "\<exists>g'. for_each [0..<width p] (\<lambda>col. place_cell K p gx gy row col) g = Some g' \<and>
     has_shape (GRID_HEIGHT K) (GRID_WIDTH K) g' \<and>
     (\<forall>r < GRID_HEIGHT K. \<forall>c < GRID_WIDTH K.
        g' ! r ! c = (if int r = gy + int row \<and> gx \<le> int c \<and> int c < gx + int (width p)
                      then pattern p ! row ! nat (int c - gx) else g ! r ! c))"
proof (rule for_each_upt_invariant[where P = "\<lambda>k g'.
     has_shape (GRID_HEIGHT K) (GRID_WIDTH K) g' \<and>
     (\<forall>r < GRID_HEIGHT K. \<forall>c < GRID_WIDTH K.
        g' ! r ! c = (if int r = gy + int row \<and> gx \<le> int c \<and> int c < gx + int k
                      then pattern p ! row ! nat (int c - gx) else g ! r ! c))"])
  show "has_shape (GRID_HEIGHT K) (GRID_WIDTH K) g \<and>
     (\<forall>r < GRID_HEIGHT K. \<forall>c < GRID_WIDTH K.
        g ! r ! c = (if int r = gy + int row \<and> gx \<le> int c \<and> int c < gx + int 0
                      then pattern p ! row ! nat (int c - gx) else g ! r ! c))"
    using g by simp
next
  fix i t
  assume i: "i < width p"
    and inv: "has_shape (GRID_HEIGHT K) (GRID_WIDTH K) t \<and>
     (\<forall>r < GRID_HEIGHT K. \<forall>c < GRID_WIDTH K.
        t ! r ! c = (if int r = gy + int row \<and> gx \<le> int c \<and> int c < gx + int i
                      then pattern p ! row ! nat (int c - gx) else g ! r ! c))"
  from place_cell_eq[OF conjunct1[OF inv] p row i, of gx gy] obtain t' where
    t': "place_cell K p gx gy row i t = Some t'"
    "has_shape (GRID_HEIGHT K) (GRID_WIDTH K) t'"
    "\<forall>r < GRID_HEIGHT K. \<forall>c < GRID_WIDTH K.
        t' ! r ! c = (if int r = gy + int row \<and> int c = gx + int i
                      then pattern p ! row ! i else t ! r ! c)"
    by blast
  have "\<forall>r < GRID_HEIGHT K. \<forall>c < GRID_WIDTH K.
        t' ! r ! c = (if int r = gy + int row \<and> gx \<le> int c \<and> int c < gx + int (Suc i)
                      then pattern p ! row ! nat (int c - gx) else g ! r ! c)"
  proof (intro allI impI)
    fix r c assume rc: "r < GRID_HEIGHT K" "c < GRID_WIDTH K"
    show "t' ! r ! c = (if int r = gy + int row \<and> gx \<le> int c \<and> int c < gx + int (Suc i)
                      then pattern p ! row ! nat (int c - gx) else g ! r ! c)"
    proof (cases "int r = gy + int row \<and> int c = gx + int i")
      case True
      then show ?thesis using t'(3) rc by simp
    next
      case False
      have "t' ! r ! c = t ! r ! c"
        using t'(3)[rule_format, OF rc] False by (simp split: if_splits)
      also have "\<dots> = (if int r = gy + int row \<and> gx \<le> int c \<and> int c < gx + int i
                      then pattern p ! row ! nat (int c - gx) else g ! r ! c)"
        using inv rc by simp
      finally show ?thesis using False by auto
    qed
  qed
  then show "\<exists>t'. place_cell K p gx gy row i t = Some t' \<and>
     (has_shape (GRID_HEIGHT K) (GRID_WIDTH K) t' \<and>
     (\<forall>r < GRID_HEIGHT K. \<forall>c < GRID_WIDTH K.
        t' ! r ! c = (if int r = gy + int row \<and> gx \<le> int c \<and> int c < gx + int (Suc i)
                      then pattern p ! row ! nat (int c - gx) else g ! r ! c)))"
    using t'(1,2) by blast
qed

lemma place_loop:
  assumes g: "has_shape (GRID_HEIGHT K) (GRID_WIDTH K) g" and p: "pattern_ok p"
  shows "\<exists>g'. for_each [0..<height p]
            (\<lambda>row. for_each [0..<width p] (\<lambda>col. place_cell K p gx gy row col)) g = Some g' \<and>
     has_shape (GRID_HEIGHT K) (GRID_WIDTH K) g' \<and>
     (\<forall>r < GRID_HEIGHT K. \<forall>c < GRID_WIDTH K. g' ! r ! c = stamped p gx gy g r c)"
  unfolding stamped_def
proof (rule for_each_upt_invariant[where P = "\<lambda>k g'.
     has_shape (GRID_HEIGHT K) (GRID_WIDTH K) g' \<and>
     (\<forall>r < GRID_HEIGHT K. \<forall>c < GRID_WIDTH K.
        g' ! r ! c = (if gy \<le> int r \<and> int r < gy + int k \<and>
                         gx \<le> int c \<and> int c < gx + int (width p)
                      then pattern p ! nat (int r - gy) ! nat (int c - gx) else g ! r ! c))"])
  show "has_shape (GRID_HEIGHT K) (GRID_WIDTH K) g \<and>
     (\<forall>r < GRID_HEIGHT K. \<forall>c < GRID_WIDTH K.
        g ! r ! c = (if gy \<le> int r \<and> int r < gy + int 0 \<and>
                         gx \<le> int c \<and> int c < gx + int (width p)
                      then pattern p ! nat (int r - gy) ! nat (int c - gx) else g ! r ! c))"
    using g by simp
next
  fix i t
  assume i: "i < height p"
    and inv: "has_shape (GRID_HEIGHT K) (GRID_WIDTH K) t \<and>
     (\<forall>r < GRID_HEIGHT K. \<forall>c < GRID_WIDTH K.
        t ! r ! c = (if gy \<le> int r \<and> int r < gy + int i \<and>
                         gx \<le> int c \<and> int c < gx + int (width p)
                      then pattern p ! nat (int r - gy) ! nat (int c - gx) else g ! r ! c))"
  from place_row[OF conjunct1[OF inv] p i, of gx gy] obtain t' where
    t': "for_each [0..<width p] (\<lambda>col. place_cell K p gx gy i col) t = Some t'"
    "has_shape (GRID_HEIGHT K) (GRID_WIDTH K) t'"
    "\<forall>r < GRID_HEIGHT K. \<forall>c < GRID_WIDTH K.
        t' ! r ! c = (if int r = gy + int i \<and> gx \<le> int c \<and> int c < gx + int (width p)
                      then pattern p ! i ! nat (int c - gx) else t ! r ! c)"
    by blast
  have "\<forall>r < GRID_HEIGHT K. \<forall>c < GRID_WIDTH K.
        t' ! r ! c = (if gy \<le> int r \<and> int r < gy + int (Suc i) \<and>
                         gx \<le> int c \<and> int c < gx + int (width p)
                      then pattern p ! nat (int r - gy) ! nat (int c - gx) else g ! r ! c)"
  proof (intro allI impI)
    fix r c assume rc: "r < GRID_HEIGHT K" "c < GRID_WIDTH K"
    show "t' ! r ! c = (if gy \<le> int r \<and> int r < gy + int (Suc i) \<and>
                         gx \<le> int c \<and> int c < gx + int (width p)
                      then pattern p ! nat (int r - gy) ! nat (int c - gx) else g ! r ! c)"
    proof (cases "int r = gy + int i \<and> gx \<le> int c \<and> int c < gx + int (width p)")
      case True
      then have "nat (int r - gy) = i" by simp
      then show ?thesis using t'(3) rc True by simp
    next
      case False
      have "t' ! r ! c = t ! r ! c"
        using t'(3)[rule_format, OF rc] False by (simp split: if_splits)
      also have "\<dots> = (if gy \<le> int r \<and> int r < gy + int i \<and>
                         gx \<le> int c \<and> int c < gx + int (width p)
                      then pattern p ! nat (int r - gy) ! nat (int c - gx) else g ! r ! c)"
        using inv rc by simp
      finally show ?thesis using False by auto
    qed
  qed
  then show "\<exists>t'. for_each [0..<width p] (\<lambda>col. place_cell K p gx gy i col) t = Some t' \<and>
     (has_shape (GRID_HEIGHT K) (GRID_WIDTH K) t' \<and>
     (\<forall>r < GRID_HEIGHT K. \<forall>c < GRID_WIDTH K.
        t' ! r ! c = (if gy \<le> int r \<and> int r < gy + int (Suc i) \<and>
                         gx \<le> int c \<and> int c < gx + int (width p)
                      then pattern p ! nat (int r - gy) ! nat (int c - gx) else g ! r ! c)))"
    using t'(1,2) by blast
qed

lemma grid_save_to_history: "grid (save_to_history s) = grid s"
  by (simp add: save_to_history_def Let_def)

lemma binaryI:
  assumes "has_shape h w g" "\<And>r c. r < h \<Longrightarrow> c < w \<Longrightarrow> g ! r ! c = 0 \<or> g ! r ! c = 1"
  shows "binary g"
  using assms by (auto simp: binary_def list_all_length has_shape_def)

lemma place_pattern_eq:
  assumes g: "has_shape (GRID_HEIGHT K) (GRID_WIDTH K) (grid s)" and p: "pattern_ok p"
    and k: "CELL_SIZE K \<noteq> 0"
  shows "\<exists>s'. place_pattern K p x y s = Some s' \<and>
      has_shape (GRID_HEIGHT K) (GRID_WIDTH K) (grid s') \<and>
      (if 0 \<le> (x - grid_offset_x s) div CELL_SIZE K \<and>
          (x - grid_offset_x s) div CELL_SIZE K < int (GRID_WIDTH K) \<and>
          0 \<le> (y - grid_offset_y s) div CELL_SIZE K \<and>
          (y - grid_offset_y s) div CELL_SIZE K < int (GRID_HEIGHT K)
       then (\<forall>r < GRID_HEIGHT K. \<forall>c < GRID_WIDTH K.
               grid s' ! r ! c =
                 stamped p ((x - grid_offset_x s) div CELL_SIZE K)
                   ((y - grid_offset_y s) div CELL_SIZE K) (grid s) r c)
       else s' = s)"
proof -
  have g1: "has_shape (GRID_HEIGHT K) (GRID_WIDTH K) (grid (save_to_history s))"
    using g by (simp add: grid_save_to_history)
  from place_loop[OF g1 p, of "(x - grid_offset_x s) div CELL_SIZE K"
      "(y - grid_offset_y s) div CELL_SIZE K"]
  obtain g' where
    l: "for_each [0..<height p]
          (\<lambda>row. for_each [0..<width p]
             (\<lambda>col. place_cell K p ((x - grid_offset_x s) div CELL_SIZE K)
                ((y - grid_offset_y s) div CELL_SIZE K) row col))
          (grid (save_to_history s)) = Some g'"
    and sh: "has_shape (GRID_HEIGHT K) (GRID_WIDTH K) g'"
    and c: "\<forall>r < GRID_HEIGHT K. \<forall>c < GRID_WIDTH K.
        g' ! r ! c = stamped p ((x - grid_offset_x s) div CELL_SIZE K)
                       ((y - grid_offset_y s) div CELL_SIZE K) (grid (save_to_history s)) r c"
    by blast
  have st: "stamped p gx gy (grid (save_to_history s)) r c = stamped p gx gy (grid s) r c"
    for gx gy r c
    by (simp add: stamped_def grid_save_to_history)
  show ?thesis
    using k g sh c
    by (simp add: place_pattern_def py_floordiv_def Let_def l st)
qed

subsection \<open>Grids of zeros and ones under the editing operations\<close>

lemma binary_update:
  assumes "binary g" "v = 0 \<or> v = 1"
  shows "binary (g[r := (g ! r)[c := v]])"
proof -
  have "g[r := (g ! r)[c := v]] ! n ! m = 0 \<or> g[r := (g ! r)[c := v]] ! n ! m = 1"
    if "n < length g" "m < length (g[r := (g ! r)[c := v]] ! n)" for n m
  proof (cases "n = r")
    case True
    then have e: "g[r := (g ! r)[c := v]] ! n = (g ! r)[c := v]" using that(1) by simp
    have "m < length (g ! r)" using that(2) unfolding e by simp
    then show ?thesis
      unfolding e using binary_nth[OF assms(1), of r m] that(1) True assms(2)
      by (cases "m = c") auto
  next
    case False
    then show ?thesis using binary_nth[OF assms(1), of n m] that by simp
  qed
  then show ?thesis by (simp add: binary_def list_all_length)
qed

lemma binary_zeros: "binary (np_zeros h w)"
  by (simp add: binary_def np_zeros_def list_all_length)

lemma binary_step_grid: "binary (step_grid K g)"
  using cell_step_binary[of K g]
  by (simp add: binary_def step_grid_def list_all_length)

lemma shape_random_choice: "has_shape h w (np_random_choice opts h w draw)"
  by (simp add: has_shape_def np_random_choice_def list_all_length)

lemma binary_random_choice: "binary (np_random_choice [0, 1] h w draw)"
proof -
  have "[0, 1::int] ! (n mod 2) = 0 \<or> [0, 1::int] ! (n mod 2) = 1" for n :: nat
    by (cases "n mod 2 = 0") (auto simp: nth_Cons')
  then show ?thesis
    by (simp add: binary_def np_random_choice_def list_all_length numeral_2_eq_2[symmetric]
        del: One_nat_def)
qed

lemma stamped_binary:
  assumes g: "has_shape h w g" "binary g" and p: "pattern_ok p" "binary (pattern p)"
    and rc: "r < h" "c < w"
  shows "stamped p gx gy g r c = 0 \<or> stamped p gx gy g r c = 1"
proof (cases "gy \<le> int r \<and> int r < gy + int (height p) \<and>
         gx \<le> int c \<and> int c < gx + int (width p)")
  case True
  then have "nat (int r - gy) < height p" "nat (int c - gx) < width p" by auto
  from binary_cell[OF p(1)[unfolded pattern_ok_def] p(2) this] True
  show ?thesis by (auto simp: stamped_def)
next
  case False
  from binary_cell[OF g rc] False show ?thesis by (auto simp: stamped_def)
qed

lemma toggle_cell_eq:
  assumes g: "has_shape (GRID_HEIGHT K) (GRID_WIDTH K) (grid s)" and b: "binary (grid s)"
    and k: "CELL_SIZE K \<noteq> 0"
  shows "\<exists>s'. toggle_cell K x y s = Some s' \<and>
      has_shape (GRID_HEIGHT K) (GRID_WIDTH K) (grid s') \<and> binary (grid s')"
proof (cases "0 \<le> (x - grid_offset_x s) div CELL_SIZE K \<and>
          (x - grid_offset_x s) div CELL_SIZE K < int (GRID_WIDTH K) \<and>
          0 \<le> (y - grid_offset_y s) div CELL_SIZE K \<and>
          (y - grid_offset_y s) div CELL_SIZE K < int (GRID_HEIGHT K)")
  case True
  have s: "np_set (grid s) ((y - grid_offset_y s) div CELL_SIZE K)
         ((x - grid_offset_x s) div CELL_SIZE K) v =
       Some ((grid s)[nat ((y - grid_offset_y s) div CELL_SIZE K) :=
          ((grid s) ! nat ((y - grid_offset_y s) div CELL_SIZE K))
            [nat ((x - grid_offset_x s) div CELL_SIZE K) := v]])" for v
    using True by (intro np_set_int[OF g]) auto
  show ?thesis
    using True k
    by (auto simp: toggle_cell_def py_floordiv_def Let_def grid_save_to_history s
        has_shape_update[OF g] binary_update[OF b])
next
  case False
  then show ?thesis
    using g b k by (auto simp: toggle_cell_def py_floordiv_def Let_def)
qed

subsection \<open>The constructors and the repository's constants\<close>

lemma Pattern_ok: "Pattern n p d = Some q \<Longrightarrow> pattern_ok q \<and> pattern q = p"
  by (cases p) (auto simp: Pattern_def pattern_ok_def has_shape_def split: if_splits)

lemma init_well_formed:
  "has_shape (GRID_HEIGHT K) (GRID_WIDTH K) (grid (init K)) \<and> binary (grid (init K)) \<and>
   cursor_inv (init K)"
  by (simp add: init_def has_shape_zeros binary_zeros cursor_inv_def)

lemma repo_consts_cell_size: "CELL_SIZE repo_consts \<noteq> 0"
  by (simp add: repo_consts_def)

section \<open>The step\<close>

text \<open>
  Claim C1. The step computes every output cell from the grid before the step only.
  \<open>update_grid\<close> of GameOfLife.py, on a grid of the configured shape, returns a new grid
  of that shape in which a cell that was alive (equal to 1) is alive iff its count of
  neighbours is 2 or 3, and a cell that was not alive is alive iff its count is exactly 3;
  \<open>births\<close> is the number of cells that were not alive and have count 3, \<open>deaths\<close> the
  number of alive cells whose count is neither 2 nor 3. The count is the one of
  \<open>get_neighbors\<close> on the old grid (neighbours outside the grid are not counted).
  \<open>step\<close> of GameOfLife_Gemini.py obeys the same rule with the count taken on the torus.
\<close>
theorem update_grid_conway_rule:
  assumes "has_shape (GRID_HEIGHT K) (GRID_WIDTH K) (grid s)"
    and "has_shape h w (gm_grid t)"
  shows "(\<exists>s'. update_grid K s = Some s' \<and>
      has_shape (GRID_HEIGHT K) (GRID_WIDTH K) (grid s') \<and>
      (\<forall>r c. r < GRID_HEIGHT K \<and> c < GRID_WIDTH K \<longrightarrow>
         grid s' ! r ! c =
           (if grid s ! r ! c = 1
            then (if clamped_count (GRID_HEIGHT K) (GRID_WIDTH K) (grid s) (int r) (int c) = 2
                   \<or> clamped_count (GRID_HEIGHT K) (GRID_WIDTH K) (grid s) (int r) (int c) = 3
                  then 1 else 0)
            else (if clamped_count (GRID_HEIGHT K) (GRID_WIDTH K) (grid s) (int r) (int c) = 3
                  then 1 else 0))) \<and>
      births (stats s') =
        count_cells (GRID_HEIGHT K) (GRID_WIDTH K)
          (\<lambda>r c. grid s ! r ! c \<noteq> 1 \<and>
             clamped_count (GRID_HEIGHT K) (GRID_WIDTH K) (grid s) (int r) (int c) = 3) \<and>
      deaths (stats s') =
        count_cells (GRID_HEIGHT K) (GRID_WIDTH K)
          (\<lambda>r c. grid s ! r ! c = 1 \<and>
             \<not> (clamped_count (GRID_HEIGHT K) (GRID_WIDTH K) (grid s) (int r) (int c) = 2
                \<or> clamped_count (GRID_HEIGHT K) (GRID_WIDTH K) (grid s) (int r) (int c) = 3)))
    \<and> (\<forall>r c. r < h \<and> c < w \<longrightarrow>
         gm_grid (step t) ! r ! c =
           (if gm_grid t ! r ! c = 1
            then (if toroidal_count h w (gm_grid t) (int r) (int c) = 2
                   \<or> toroidal_count h w (gm_grid t) (int r) (int c) = 3 then 1 else 0)
            else if gm_grid t ! r ! c = 0
            then (if toroidal_count h w (gm_grid t) (int r) (int c) = 3 then 1 else 0)
            else 0))"
proof -
  have b: "is_birth K (grid s) = (\<lambda>r c. grid s ! r ! c \<noteq> 1 \<and>
             clamped_count (GRID_HEIGHT K) (GRID_WIDTH K) (grid s) (int r) (int c) = 3)"
    by (intro ext) (simp add: is_birth_def)
  have d: "is_death K (grid s) = (\<lambda>r c. grid s ! r ! c = 1 \<and>
             \<not> (clamped_count (GRID_HEIGHT K) (GRID_WIDTH K) (grid s) (int r) (int c) = 2
                \<or> clamped_count (GRID_HEIGHT K) (GRID_WIDTH K) (grid s) (int r) (int c) = 3))"
    by (intro ext) (simp add: is_death_def)
  have main: "\<exists>s'. update_grid K s = Some s' \<and>
      has_shape (GRID_HEIGHT K) (GRID_WIDTH K) (grid s') \<and>
      (\<forall>r c. r < GRID_HEIGHT K \<and> c < GRID_WIDTH K \<longrightarrow>
         grid s' ! r ! c = cell_step K (grid s) r c) \<and>
      births (stats s') = count_cells (GRID_HEIGHT K) (GRID_WIDTH K) (is_birth K (grid s)) \<and>
      deaths (stats s') = count_cells (GRID_HEIGHT K) (GRID_WIDTH K) (is_death K (grid s))"
    by (simp add: update_grid_eq[OF assms(1)] has_shape_step_grid step_grid_nth)
  have wrap: "\<forall>r c. r < h \<and> c < w \<longrightarrow>
      gm_grid (step t) ! r ! c =
        born_or_survives (gm_grid t ! r ! c) (toroidal_count h w (gm_grid t) (int r) (int c))"
    using step_nth[OF assms(2)] by blast
  show ?thesis
    using main wrap unfolding b d
    by (simp add: cell_step_def born_or_survives_def Let_def)
qed

theorem update_grid_conway_rule_witness:
  "has_shape (GRID_HEIGHT tiny) (GRID_WIDTH tiny) (grid blinker_game) \<and>
   has_shape 3 3 (gm_grid blinker_gemini) \<and>
   (\<exists>s'. update_grid tiny blinker_game = Some s' \<and>
      grid s' ! 1 ! 0 = 1 \<and> grid s' ! 0 ! 1 = 0 \<and> grid s' ! 1 ! 1 = 1 \<and>
      births (stats s') = 2 \<and> deaths (stats s') = 2) \<and>
   gm_grid (step blinker_gemini) ! 1 ! 0 = 1 \<and> gm_grid (step blinker_gemini) ! 0 ! 1 = 1"
proof -
  have h1: "has_shape (GRID_HEIGHT tiny) (GRID_WIDTH tiny) (grid blinker_game)"
    by (simp add: has_shape_def tiny_def blinker_game_def blinker_grid_def)
  have h2: "has_shape 3 3 (gm_grid blinker_gemini)"
    by (simp add: has_shape_def blinker_gemini_def blinker_grid_def)
  note rule = update_grid_conway_rule [OF h1 h2]
  from rule obtain s' where s: "update_grid tiny blinker_game = Some s'"
    and cells: "\<And>r c. r < GRID_HEIGHT tiny \<and> c < GRID_WIDTH tiny \<Longrightarrow>
         grid s' ! r ! c =
           (if grid blinker_game ! r ! c = 1
            then (if clamped_count (GRID_HEIGHT tiny) (GRID_WIDTH tiny) (grid blinker_game) (int r) (int c) = 2
                   \<or> clamped_count (GRID_HEIGHT tiny) (GRID_WIDTH tiny) (grid blinker_game) (int r) (int c) = 3
                  then 1 else 0)
            else (if clamped_count (GRID_HEIGHT tiny) (GRID_WIDTH tiny) (grid blinker_game) (int r) (int c) = 3
                  then 1 else 0))"
    and b: "births (stats s') =
        count_cells (GRID_HEIGHT tiny) (GRID_WIDTH tiny)
          (\<lambda>r c. grid blinker_game ! r ! c \<noteq> 1 \<and>
             clamped_count (GRID_HEIGHT tiny) (GRID_WIDTH tiny) (grid blinker_game) (int r) (int c) = 3)"
    and d: "deaths (stats s') =
        count_cells (GRID_HEIGHT tiny) (GRID_WIDTH tiny)
          (\<lambda>r c. grid blinker_game ! r ! c = 1 \<and>
             \<not> (clamped_count (GRID_HEIGHT tiny) (GRID_WIDTH tiny) (grid blinker_game) (int r) (int c) = 2
                \<or> clamped_count (GRID_HEIGHT tiny) (GRID_WIDTH tiny) (grid blinker_game) (int r) (int c) = 3))"
    by blast
  from rule have wrap: "\<And>r c. r < 3 \<and> c < 3 \<Longrightarrow>
         gm_grid (step blinker_gemini) ! r ! c =
           (if gm_grid blinker_gemini ! r ! c = 1
            then (if toroidal_count 3 3 (gm_grid blinker_gemini) (int r) (int c) = 2
                   \<or> toroidal_count 3 3 (gm_grid blinker_gemini) (int r) (int c) = 3 then 1 else 0)
            else if gm_grid blinker_gemini ! r ! c = 0
            then (if toroidal_count 3 3 (gm_grid blinker_gemini) (int r) (int c) = 3 then 1 else 0)
            else 0)"
    by blast
  have c10: "grid s' ! 1 ! 0 = 1"
    using cells[of 1 0]
    by (simp add: tiny_def blinker_game_def blinker_grid_def clamped_count_def
        moore_offsets_def clamped_cell_def)
  have c01: "grid s' ! 0 ! 1 = 0"
    using cells[of 0 1]
    by (simp add: tiny_def blinker_game_def blinker_grid_def clamped_count_def
        moore_offsets_def clamped_cell_def)
  have c11: "grid s' ! 1 ! 1 = 1"
    using cells[of 1 1]
    by (simp add: tiny_def blinker_game_def blinker_grid_def clamped_count_def
        moore_offsets_def clamped_cell_def)
  have b2: "births (stats s') = 2"
    unfolding b
    by (simp add: tiny_def blinker_game_def blinker_grid_def count_cells_def clamped_count_def
        moore_offsets_def clamped_cell_def upt_rec numeral_nat)
  have d2: "deaths (stats s') = 2"
    unfolding d
    by (simp add: tiny_def blinker_game_def blinker_grid_def count_cells_def clamped_count_def
        moore_offsets_def clamped_cell_def upt_rec numeral_nat)
  have g10: "gm_grid (step blinker_gemini) ! 1 ! 0 = 1"
    using wrap[of 1 0]
    by (simp add: blinker_gemini_def blinker_grid_def toroidal_count_def moore_offsets_def)
  have g01: "gm_grid (step blinker_gemini) ! 0 ! 1 = 1"
    using wrap[of 0 1]
    by (simp add: blinker_gemini_def blinker_grid_def toroidal_count_def moore_offsets_def)
  show ?thesis using h1 h2 s c10 c01 c11 b2 d2 g10 g01 by simp
qed

text \<open>
  Claim C2. For a grid of the configured shape whose cells are 0 or 1 and a cell inside
  it, \<open>get_neighbors\<close> returns a number between 0 and 8, the sum of the cells at the eight
  Moore offsets (all pairs of -1, 0, 1 but (0, 0)) that lie inside the grid. The count of
  GameOfLife_Gemini.py, \<open>convolve2d\<close> with the 3 by 3 kernel of ones with centre 0 and
  wrap-around boundary, equals at every cell of every rectangular grid the naive scan of
  the eight offsets with coordinates taken modulo the height and the width, and lies
  between 0 and 8 on a grid of zeros and ones.
\<close>
theorem neighbor_count_moore_and_convolution:
  assumes "has_shape (GRID_HEIGHT K) (GRID_WIDTH K) g" and "binary g"
    and "row < GRID_HEIGHT K" and "col < GRID_WIDTH K"
    and "has_shape h w a" and "i < h" and "j < w"
  shows "(\<exists>n. get_neighbors K g (int row) (int col) = Some n \<and> 0 \<le> n \<and> n \<le> 8 \<and>
            n = (\<Sum>(dr, dc)\<leftarrow>moore_offsets.
                   clamped_cell (GRID_HEIGHT K) (GRID_WIDTH K) g (int row + dr) (int col + dc))) \<and>
         length moore_offsets = 8 \<and> distinct moore_offsets \<and>
         set moore_offsets = ({- 1, 0, 1} \<times> {- 1, 0, 1}) - {(0, 0)} \<and>
         convolve2d_same_wrap a kernel ! i ! j = toroidal_count h w a (int i) (int j) \<and>
         (binary a \<longrightarrow> 0 \<le> convolve2d_same_wrap a kernel ! i ! j \<and>
                        convolve2d_same_wrap a kernel ! i ! j \<le> 8)"
proof -
  have n: "get_neighbors K g (int row) (int col) =
      Some (clamped_count (GRID_HEIGHT K) (GRID_WIDTH K) g (int row) (int col))"
    by (rule get_neighbors_eq[OF assms(1)])
  have r: "0 \<le> clamped_count (GRID_HEIGHT K) (GRID_WIDTH K) g (int row) (int col) \<and>
      clamped_count (GRID_HEIGHT K) (GRID_WIDTH K) g (int row) (int col) \<le> 8"
    by (rule clamped_count_range[OF assms(1,2)])
  have m: "length moore_offsets = 8 \<and> distinct moore_offsets \<and>
      set moore_offsets = ({- 1, 0, 1} \<times> {- 1, 0, 1}) - {(0, 0)}"
    by (auto simp: moore_offsets_def)
  have c: "convolve2d_same_wrap a kernel ! i ! j = toroidal_count h w a (int i) (int j)"
    by (rule convolve_nth[OF assms(5,6,7)])
  have t: "binary a \<longrightarrow> 0 \<le> toroidal_count h w a (int i) (int j) \<and>
      toroidal_count h w a (int i) (int j) \<le> 8"
    using toroidal_count_range[OF assms(5)] assms(6,7) by auto
  show ?thesis using n r m c t by (simp add: clamped_count_def)
qed

theorem neighbor_count_moore_and_convolution_witness:
  "has_shape (GRID_HEIGHT tiny) (GRID_WIDTH tiny) blinker_grid \<and> binary blinker_grid \<and>
   (1::nat) < GRID_HEIGHT tiny \<and> (0::nat) < GRID_WIDTH tiny \<and>
   has_shape 3 3 blinker_grid \<and> (1::nat) < 3 \<and> (0::nat) < 3 \<and>
   get_neighbors tiny blinker_grid (int 1) (int 0) = Some 3 \<and>
   convolve2d_same_wrap blinker_grid kernel ! 1 ! 0 = 3"
proof -
  have h1: "has_shape (GRID_HEIGHT tiny) (GRID_WIDTH tiny) blinker_grid"
    by (simp add: has_shape_def tiny_def blinker_grid_def)
  have h2: "binary blinker_grid" by (simp add: binary_def blinker_grid_def)
  have h3: "(1::nat) < GRID_HEIGHT tiny" by (simp add: tiny_def)
  have h4: "(0::nat) < GRID_WIDTH tiny" by (simp add: tiny_def)
  have h5: "has_shape 3 3 blinker_grid" by (simp add: has_shape_def blinker_grid_def)
  have h6: "(1::nat) < 3" by simp
  have h7: "(0::nat) < 3" by simp
  note rule = neighbor_count_moore_and_convolution [OF h1 h2 h3 h4 h5 h6 h7]
  have a: "get_neighbors tiny blinker_grid (int 1) (int 0) = Some 3"
    using rule
    by (auto simp: tiny_def blinker_grid_def moore_offsets_def clamped_cell_def)
  have b: "convolve2d_same_wrap blinker_grid kernel ! 1 ! 0 = 3"
    using rule
    by (simp add: blinker_grid_def toroidal_count_def moore_offsets_def)
  show ?thesis using h1 h2 h3 h4 h5 a b by simp
qed

text \<open>
  Claim C3. After a step of \<open>update_grid\<close> the statistics are: \<open>generation\<close> one more,
  \<open>births\<close> and \<open>deaths\<close> this step's counts, \<open>total_births\<close> and \<open>total_deaths\<close>
  increased by these counts, \<open>population\<close> the number of alive cells of the new grid,
  \<open>max_population\<close> the maximum of its old value and the new population. The step of
  GameOfLife_Gemini.py keeps a generation counter only, which it increments.
\<close>
theorem update_grid_statistics:
  assumes "has_shape (GRID_HEIGHT K) (GRID_WIDTH K) (grid s)"
  shows "(\<exists>s'. update_grid K s = Some s' \<and>
      generation (stats s') = generation (stats s) + 1 \<and>
      births (stats s') =
        count_cells (GRID_HEIGHT K) (GRID_WIDTH K)
          (\<lambda>r c. grid s ! r ! c \<noteq> 1 \<and>
             clamped_count (GRID_HEIGHT K) (GRID_WIDTH K) (grid s) (int r) (int c) = 3) \<and>
      deaths (stats s') =
        count_cells (GRID_HEIGHT K) (GRID_WIDTH K)
          (\<lambda>r c. grid s ! r ! c = 1 \<and>
             \<not> (clamped_count (GRID_HEIGHT K) (GRID_WIDTH K) (grid s) (int r) (int c) = 2
                \<or> clamped_count (GRID_HEIGHT K) (GRID_WIDTH K) (grid s) (int r) (int c) = 3)) \<and>
      total_births (stats s') = total_births (stats s) + births (stats s') \<and>
      total_deaths (stats s') = total_deaths (stats s) + deaths (stats s') \<and>
      ival (population (stats s')) =
        count_cells (GRID_HEIGHT K) (GRID_WIDTH K) (\<lambda>r c. grid s' ! r ! c = 1) \<and>
      ival (max_population (stats s')) =
        max (ival (max_population (stats s))) (ival (population (stats s'))))
    \<and> gm_generation (step t) = gm_generation t + 1"
proof -
  have b: "is_birth K (grid s) = (\<lambda>r c. grid s ! r ! c \<noteq> 1 \<and>
             clamped_count (GRID_HEIGHT K) (GRID_WIDTH K) (grid s) (int r) (int c) = 3)"
    by (intro ext) (simp add: is_birth_def)
  have d: "is_death K (grid s) = (\<lambda>r c. grid s ! r ! c = 1 \<and>
             \<not> (clamped_count (GRID_HEIGHT K) (GRID_WIDTH K) (grid s) (int r) (int c) = 2
                \<or> clamped_count (GRID_HEIGHT K) (GRID_WIDTH K) (grid s) (int r) (int c) = 3))"
    by (intro ext) (simp add: is_death_def)
  have m: "ival (py_max x y) = max (ival x) (ival y)" for x y
    by (simp add: py_max_def)
  have g: "gm_generation (step t) = gm_generation t + 1"
    by (simp add: step_def Let_def)
  show ?thesis
    unfolding update_grid_eq[OF assms] b[symmetric] d[symmetric]
    using g by (simp add: m np_sum_def grid_sum_step_grid)
qed

theorem update_grid_statistics_witness:
  "has_shape (GRID_HEIGHT tiny) (GRID_WIDTH tiny) (grid blinker_game) \<and>
   (\<exists>s'. update_grid tiny blinker_game = Some s' \<and>
      generation (stats s') = 1 \<and> births (stats s') = 2 \<and> deaths (stats s') = 2 \<and>
      total_births (stats s') = 2 \<and> total_deaths (stats s') = 2)"
proof -
  have h1: "has_shape (GRID_HEIGHT tiny) (GRID_WIDTH tiny) (grid blinker_game)"
    by (simp add: has_shape_def tiny_def blinker_game_def blinker_grid_def)
  from update_grid_statistics [OF h1, of blinker_gemini]
  obtain s' where s: "update_grid tiny blinker_game = Some s'"
    and g: "generation (stats s') = generation (stats blinker_game) + 1"
    and b: "births (stats s') =
        count_cells (GRID_HEIGHT tiny) (GRID_WIDTH tiny)
          (\<lambda>r c. grid blinker_game ! r ! c \<noteq> 1 \<and>
             clamped_count (GRID_HEIGHT tiny) (GRID_WIDTH tiny) (grid blinker_game) (int r) (int c) = 3)"
    and d: "deaths (stats s') =
        count_cells (GRID_HEIGHT tiny) (GRID_WIDTH tiny)
          (\<lambda>r c. grid blinker_game ! r ! c = 1 \<and>
             \<not> (clamped_count (GRID_HEIGHT tiny) (GRID_WIDTH tiny) (grid blinker_game) (int r) (int c) = 2
                \<or> clamped_count (GRID_HEIGHT tiny) (GRID_WIDTH tiny) (grid blinker_game) (int r) (int c) = 3))"
    and tb: "total_births (stats s') = total_births (stats blinker_game) + births (stats s')"
    and td: "total_deaths (stats s') = total_deaths (stats blinker_game) + deaths (stats s')"
    by blast
  have b2: "births (stats s') = 2"
    unfolding b
    by (simp add: tiny_def blinker_game_def blinker_grid_def count_cells_def clamped_count_def
        moore_offsets_def clamped_cell_def upt_rec numeral_nat)
  have d2: "deaths (stats s') = 2"
    unfolding d
    by (simp add: tiny_def blinker_game_def blinker_grid_def count_cells_def clamped_count_def
        moore_offsets_def clamped_cell_def upt_rec numeral_nat)
  have g1: "generation (stats s') = 1"
    using g by (simp add: blinker_game_def init_def Statistics_def)
  have t: "total_births (stats s') = 2" "total_deaths (stats s') = 2"
    using tb td b2 d2 by (simp_all add: blinker_game_def init_def Statistics_def)
  show ?thesis using h1 s g1 b2 d2 t by simp
qed

section \<open>History\<close>



text \<open>
  Claim C5. On a history whose cursor is valid (between -1 and the last index) and whose
  length is within the capacity, \<open>save_to_history\<close> keeps the entries up to the cursor,
  drops the ones after it and appends the grid (a copy: entries are values). When that makes
  the history longer than \<open>max_history\<close>, which happens only with the cursor at the newest
  slot, the oldest entry is removed and the cursor stays; otherwise the cursor advances
  by one. The grid is not changed.
\<close>
theorem save_to_history_truncates_then_appends:
  assumes "- 1 \<le> history_index s" and "history_index s < int (length (history s))"
    and "length (history s) \<le> max_history s"
  shows "grid (save_to_history s) = grid s \<and>
     max_history (save_to_history s) = max_history s \<and>
     (if max_history s < length (take (nat (history_index s + 1)) (history s)) + 1
      then history (save_to_history s) =
             tl (take (nat (history_index s + 1)) (history s) @ [grid s]) \<and>
           history_index (save_to_history s) = history_index s \<and>
           history_index s = int (length (history s)) - 1
      else history (save_to_history s) =
             take (nat (history_index s + 1)) (history s) @ [grid s] \<and>
           history_index (save_to_history s) = history_index s + 1)"
  unfolding save_to_history_eq[OF assms(1,2)]
  using assms by (auto simp: min_def)

theorem save_to_history_truncates_then_appends_witness:
  "- 1 \<le> history_index (blinker_game\<lparr>history := [np_zeros 3 3, blinker_grid, np_zeros 3 3], history_index := 0\<rparr>) \<and>
   history (save_to_history (blinker_game\<lparr>history := [np_zeros 3 3, blinker_grid, np_zeros 3 3], history_index := 0\<rparr>))
     = [np_zeros 3 3, blinker_grid] \<and>
   history_index (save_to_history (blinker_game\<lparr>history := [np_zeros 3 3, blinker_grid, np_zeros 3 3], history_index := 0\<rparr>)) = 1 \<and>
   history (save_to_history (blinker_game\<lparr>history := [np_zeros 3 3, np_zeros 3 3], history_index := 1, max_history := 2\<rparr>))
     = [np_zeros 3 3, blinker_grid] \<and>
   history_index (save_to_history (blinker_game\<lparr>history := [np_zeros 3 3, np_zeros 3 3], history_index := 1, max_history := 2\<rparr>)) = 1"
  using save_to_history_truncates_then_appends
      [of "blinker_game\<lparr>history := [np_zeros 3 3, blinker_grid, np_zeros 3 3], history_index := 0\<rparr>"]
    save_to_history_truncates_then_appends
      [of "blinker_game\<lparr>history := [np_zeros 3 3, np_zeros 3 3], history_index := 1, max_history := 2\<rparr>"]
  by (simp add: blinker_game_def init_def)

text \<open>
  Claim C6. From the empty history (cursor -1, capacity 50), after every prefix of every
  sequence of records, undos, redos and changes of the grid, no operation has raised,
  the history has at most 50 entries, and if it is not empty the cursor is a valid index
  into it.
\<close>
theorem history_invariant:
  assumes "history s = []" and "history_index s = - 1" and "max_history s = 50"
  shows "\<forall>n. \<exists>s'. run_actions (take n acts) s = Some s' \<and> history_ok s'"
proof
  fix n
  have "cursor_inv s" using assms by (simp add: cursor_inv_def)
  from cursor_inv_run[OF this, of "take n acts"] obtain s' where
    "run_actions (take n acts) s = Some s'" "cursor_inv s'" "max_history s' = max_history s"
    by blast
  then show "\<exists>s'. run_actions (take n acts) s = Some s' \<and> history_ok s'"
    using cursor_inv_history_ok[of s'] assms(3) by simp
qed

theorem history_invariant_witness:
  "history (init tiny) = [] \<and> history_index (init tiny) = - 1 \<and> max_history (init tiny) = 50 \<and>
   (\<exists>s'. run_actions (take 4 [Record, Mutate blinker_grid, Record, Undo, Redo]) (init tiny) = Some s' \<and>
      history_ok s' \<and> length (history s') = 2 \<and> history_index s' = 0)"
proof -
  have h1: "history (init tiny) = []" by (simp add: init_def)
  have h2: "history_index (init tiny) = - 1" by (simp add: init_def)
  have h3: "max_history (init tiny) = 50" by (simp add: init_def)
  from history_invariant [OF h1 h2 h3, of "[Record, Mutate blinker_grid, Record, Undo, Redo]"]
  obtain s' where
    s: "run_actions (take 4 [Record, Mutate blinker_grid, Record, Undo, Redo]) (init tiny) = Some s'"
    and ok: "history_ok s'"
    by blast
  have e: "take 4 [Record, Mutate blinker_grid, Record, Undo, Redo]
      = [Record, Mutate blinker_grid, Record, Undo]"
    by (simp add: numeral_nat)
  have "length (history s') = 2 \<and> history_index s' = 0"
    using s unfolding e
    by (auto simp: run_actions_def init_def save_to_history_def undo_def py_list_get_def
        np_index_def py_slice_to_def Let_def)
  then show ?thesis using h1 h2 h3 s ok by simp
qed

section \<open>Editing the grid\<close>

text \<open>
  Claim C7, as stated, fails. \<open>place_pattern\<close> assigns \<open>pattern.pattern[row, col]\<close> to the
  grid cell under every cell of the pattern, dead cells included. With the blinker in the
  grid and the one-row pattern (dead, alive) placed at column 1 of row 0, the alive cell
  \<open>(0, 1)\<close> of the grid lies under the dead cell of the pattern and becomes dead.
\<close>
theorem place_pattern_dead_cell_counterexample:
  "pattern dead_alive ! 0 ! 0 = 0 \<and> grid blinker_game ! 0 ! 1 = 1 \<and>
   map_option grid (place_pattern tiny dead_alive 12 0 blinker_game)
     = Some [[0, 0, 1], [0, 1, 0], [0, 1, 0]] \<and>
   [[0, 0, 1], [0, 1, 0], [0, 1, 0]] ! 0 ! 1 = (0::int)"
  by (simp add: dead_alive_def blinker_game_def blinker_grid_def
      place_pattern_def py_floordiv_def tiny_def init_def grid_save_to_history Let_def
      upt_rec place_cell_def np_get_def np_set_def np_index_def)

text \<open>
  Claim C7, amended. On a grid of the configured shape and a rectangular pattern,
  \<open>place_pattern\<close> does nothing when the anchor cell is outside the grid; otherwise every
  grid cell under the footprint of the pattern (clipped at the grid's borders) takes the
  value of the pattern cell above it, alive or dead, and every cell outside the footprint
  keeps its value.
\<close>
theorem place_pattern_overwrites_footprint:
  assumes "has_shape (GRID_HEIGHT K) (GRID_WIDTH K) (grid s)" and "pattern_ok p"
    and "CELL_SIZE K \<noteq> 0"
  shows "\<exists>s'. place_pattern K p x y s = Some s' \<and>
      has_shape (GRID_HEIGHT K) (GRID_WIDTH K) (grid s') \<and>
      (if 0 \<le> (x - grid_offset_x s) div CELL_SIZE K \<and>
          (x - grid_offset_x s) div CELL_SIZE K < int (GRID_WIDTH K) \<and>
          0 \<le> (y - grid_offset_y s) div CELL_SIZE K \<and>
          (y - grid_offset_y s) div CELL_SIZE K < int (GRID_HEIGHT K)
       then (\<forall>r c. r < GRID_HEIGHT K \<and> c < GRID_WIDTH K \<longrightarrow>
               grid s' ! r ! c =
                 (if (y - grid_offset_y s) div CELL_SIZE K \<le> int r \<and>
                     int r < (y - grid_offset_y s) div CELL_SIZE K + int (height p) \<and>
                     (x - grid_offset_x s) div CELL_SIZE K \<le> int c \<and>
                     int c < (x - grid_offset_x s) div CELL_SIZE K + int (width p)
                  then pattern p ! nat (int r - (y - grid_offset_y s) div CELL_SIZE K)
                                 ! nat (int c - (x - grid_offset_x s) div CELL_SIZE K)
                  else grid s ! r ! c))
       else s' = s)"
  using place_pattern_eq[OF assms, of x y]
  by (auto simp: stamped_def)

theorem place_pattern_overwrites_footprint_witness:
  "has_shape (GRID_HEIGHT tiny) (GRID_WIDTH tiny) (grid blinker_game) \<and> pattern_ok dead_alive \<and>
   CELL_SIZE tiny \<noteq> 0 \<and>
   (\<exists>s'. place_pattern tiny dead_alive 12 0 blinker_game = Some s' \<and>
      grid s' ! 0 ! 1 = 0 \<and> grid s' ! 0 ! 2 = 1 \<and> grid s' ! 1 ! 1 = 1 \<and> grid s' ! 0 ! 0 = 0)"
proof -
  have h1: "has_shape (GRID_HEIGHT tiny) (GRID_WIDTH tiny) (grid blinker_game)"
    by (simp add: has_shape_def tiny_def blinker_game_def blinker_grid_def)
  have h2: "pattern_ok dead_alive" by (simp add: pattern_ok_def has_shape_def dead_alive_def)
  have h3: "CELL_SIZE tiny \<noteq> 0" by (simp add: tiny_def)
  have o: "grid_offset_x blinker_game = 0" "grid_offset_y blinker_game = 0"
    by (simp_all add: blinker_game_def init_def tiny_def)
  from place_pattern_overwrites_footprint [OF h1 h2 h3, of 12 0]
  obtain s' where s: "place_pattern tiny dead_alive 12 0 blinker_game = Some s'"
    and c: "\<And>r c. r < 3 \<and> c < 3 \<Longrightarrow>
       grid s' ! r ! c =
         (if 0 \<le> int r \<and> int r < 0 + int (height dead_alive) \<and>
             1 \<le> int c \<and> int c < 1 + int (width dead_alive)
          then pattern dead_alive ! nat (int r - 0) ! nat (int c - 1)
          else grid blinker_game ! r ! c)"
    by (auto simp: o tiny_def)
  have "grid s' ! 0 ! 1 = 0" "grid s' ! 0 ! 2 = 1" "grid s' ! 1 ! 1 = 1" "grid s' ! 0 ! 0 = 0"
    using c[of 0 1] c[of 0 2] c[of 1 1] c[of 0 0]
    by (simp_all add: dead_alive_def blinker_game_def blinker_grid_def)
  then show ?thesis using h1 h2 h3 s by simp
qed

section \<open>Persistence\<close>

text \<open>
  Claim C8 (the round trip of \<open>save_pattern\<close> and \<open>load_pattern\<close>) fails on every session
  that has made a step. \<open>update_grid\<close> stores \<open>np.sum(self.grid)\<close>, a NumPy integer, in
  \<open>population\<close>; \<open>json.dump\<close> raises TypeError on it, so \<open>save_pattern\<close> leaves no
  readable file, and \<open>load_pattern\<close> on that file fails and restores nothing.
\<close>
theorem save_pattern_fails_after_update_grid:
  assumes "has_shape (GRID_HEIGHT K) (GRID_WIDTH K) (grid s)"
  shows "\<exists>s'. update_grid K s = Some s' \<and> save_pattern s' = Malformed \<and>
           load_pattern (save_pattern s') s0 = Failed s0"
  by (simp add: update_grid_eq[OF assms] save_pattern_def np_sum_def load_pattern_def)

theorem save_pattern_fails_after_update_grid_witness:
  "has_shape (GRID_HEIGHT tiny) (GRID_WIDTH tiny) (grid blinker_game) \<and>
   (\<exists>s'. update_grid tiny blinker_game = Some s' \<and> save_pattern s' = Malformed \<and>
      load_pattern (save_pattern s') (init tiny) = Failed (init tiny))"
proof -
  have h1: "has_shape (GRID_HEIGHT tiny) (GRID_WIDTH tiny) (grid blinker_game)"
    by (simp add: has_shape_def tiny_def blinker_game_def blinker_grid_def)
  show ?thesis
    using h1 save_pattern_fails_after_update_grid [OF h1, of "init tiny"] by simp
qed

text \<open>
  Claim C9, as stated, fails. \<open>load_pattern\<close> assigns the grid before it reads the
  statistics: on a blob whose \<open>"grid"\<close> is a matrix and whose \<open>"stats"\<close> is a string,
  \<open>stats_data.get\<close> raises after the grid of the session has been replaced.
\<close>
theorem load_pattern_wrong_stats_type_counterexample:
  "load_pattern
     (Text (JObj [(''grid'', JArr [JArr [JInt 1, JInt 1, JInt 1], JArr [JInt 0, JInt 0, JInt 0],
                                  JArr [JInt 0, JInt 0, JInt 0]]),
                  (''stats'', JStr ''oops'')]))
     blinker_game
   = Failed ((save_to_history blinker_game)\<lparr>grid := [[1, 1, 1], [0, 0, 0], [0, 0, 0]]\<rparr>) \<and>
   grid ((save_to_history blinker_game)\<lparr>grid := [[1, 1, 1], [0, 0, 0], [0, 0, 0]]\<rparr>)
     \<noteq> grid blinker_game"
  by (simp add: load_pattern_def Let_def blinker_game_def blinker_grid_def)

text \<open>
  Claim C9, amended. On a missing or unparsable file \<open>load_pattern\<close> fails and leaves the
  session as it was. On a parsable blob that is not an object, or is an object without
  \<open>"grid"\<close>, it fails with the grid unchanged, a snapshot having been added to the history.
  Field types are not checked before the grid is assigned: on an object whose \<open>"grid"\<close> is an
  integer matrix and whose \<open>"stats"\<close> is not an object, it fails with the grid already
  replaced by the blob's.
\<close>
theorem load_pattern_failures:
  "load_pattern Missing s = Failed s \<and> load_pattern Malformed s = Failed s \<and>
   (\<forall>data. (\<forall>kvs. data \<noteq> JObj kvs) \<or> (\<exists>kvs. data = JObj kvs \<and> map_of kvs ''grid'' = None) \<longrightarrow>
      load_pattern (Text data) s = Failed (save_to_history s) \<and>
      grid (save_to_history s) = grid s) \<and>
   (\<forall>kvs v g x. map_of kvs ''grid'' = Some v \<and> np_array v = Some g \<and>
      map_of kvs ''stats'' = Some x \<and> (\<forall>stats_data. x \<noteq> JObj stats_data) \<longrightarrow>
      load_pattern (Text (JObj kvs)) s = Failed ((save_to_history s)\<lparr>grid := g\<rparr>))"
proof -
  have a: "load_pattern Missing s = Failed s \<and> load_pattern Malformed s = Failed s"
    by (simp add: load_pattern_def)
  have b: "load_pattern (Text data) s = Failed (save_to_history s) \<and>
      grid (save_to_history s) = grid s"
    if "(\<forall>kvs. data \<noteq> JObj kvs) \<or> (\<exists>kvs. data = JObj kvs \<and> map_of kvs ''grid'' = None)"
    for data
    using that
    by (cases data) (auto simp: load_pattern_def Let_def save_to_history_def)
  have c: "load_pattern (Text (JObj kvs)) s = Failed ((save_to_history s)\<lparr>grid := g\<rparr>)"
    if "map_of kvs ''grid'' = Some v \<and> np_array v = Some g \<and>
      map_of kvs ''stats'' = Some x \<and> (\<forall>stats_data. x \<noteq> JObj stats_data)"
    for kvs v g x
    using that by (cases x) (auto simp: load_pattern_def Let_def)
  show ?thesis using a b c by blast
qed

theorem load_pattern_failures_witness:
  "load_pattern (Text (JArr [JInt 1])) blinker_game = Failed (save_to_history blinker_game) \<and>
   grid (save_to_history blinker_game) = grid blinker_game \<and>
   load_pattern (Text (JObj [(''cells'', JArr [])])) blinker_game
     = Failed (save_to_history blinker_game) \<and>
   load_pattern Malformed blinker_game = Failed blinker_game \<and>
   load_pattern
     (Text (JObj [(''grid'', JArr [JArr [JInt 1]]), (''stats'', JNull)])) blinker_game
     = Failed ((save_to_history blinker_game)\<lparr>grid := [[1]]\<rparr>)"
proof -
  note rule = load_pattern_failures [of blinker_game]
  from rule have b: "\<And>data. (\<forall>kvs. data \<noteq> JObj kvs) \<or>
        (\<exists>kvs. data = JObj kvs \<and> map_of kvs ''grid'' = None) \<Longrightarrow>
      load_pattern (Text data) blinker_game = Failed (save_to_history blinker_game) \<and>
      grid (save_to_history blinker_game) = grid blinker_game"
    by blast
  from rule have c: "\<And>kvs v g x. map_of kvs ''grid'' = Some v \<and> np_array v = Some g \<and>
      map_of kvs ''stats'' = Some x \<and> (\<forall>stats_data. x \<noteq> JObj stats_data) \<Longrightarrow>
      load_pattern (Text (JObj kvs)) blinker_game
        = Failed ((save_to_history blinker_game)\<lparr>grid := g\<rparr>)"
    by blast
  have 1: "load_pattern (Text (JArr [JInt 1])) blinker_game = Failed (save_to_history blinker_game)
      \<and> grid (save_to_history blinker_game) = grid blinker_game"
    using b[of "JArr [JInt 1]"] by simp
  have 2: "load_pattern (Text (JObj [(''cells'', JArr [])])) blinker_game
     = Failed (save_to_history blinker_game)"
    using b[of "JObj [(''cells'', JArr [])]"] by simp
  have 3: "load_pattern Malformed blinker_game = Failed blinker_game"
    using rule by blast
  have 4: "load_pattern
     (Text (JObj [(''grid'', JArr [JArr [JInt 1]]), (''stats'', JNull)])) blinker_game
     = Failed ((save_to_history blinker_game)\<lparr>grid := [[1]]\<rparr>)"
    using c[of "[(''grid'', JArr [JArr [JInt 1]]), (''stats'', JNull)]" "JArr [JArr [JInt 1]]"
          "[[1]]" JNull]
    by simp
  show ?thesis using 1 2 3 4 by simp
qed

section \<open>Well-formed grids\<close>

text \<open>
  Claim C10. On a grid of the configured shape whose cells are all 0 or 1, the step
  (\<open>update_grid\<close>), drawing or erasing one cell (\<open>toggle_cell\<close>), placing a rectangular
  pattern of zeros and ones (\<open>place_pattern\<close>), \<open>clear_grid\<close> and \<open>fill_random\<close> (whatever
  the generator draws) each run without raising and leave a grid of the same shape whose
  cells are all 0 or 1.
\<close>
theorem grid_operations_keep_well_formed:
  assumes "has_shape (GRID_HEIGHT K) (GRID_WIDTH K) (grid s)" and "binary (grid s)"
    and "pattern_ok p" and "binary (pattern p)" and "CELL_SIZE K \<noteq> 0"
  shows "(\<exists>s'. update_grid K s = Some s' \<and>
            has_shape (GRID_HEIGHT K) (GRID_WIDTH K) (grid s') \<and> binary (grid s')) \<and>
         (\<exists>s'. toggle_cell K x y s = Some s' \<and>
            has_shape (GRID_HEIGHT K) (GRID_WIDTH K) (grid s') \<and> binary (grid s')) \<and>
         (\<exists>s'. place_pattern K p x y s = Some s' \<and>
            has_shape (GRID_HEIGHT K) (GRID_WIDTH K) (grid s') \<and> binary (grid s')) \<and>
         has_shape (GRID_HEIGHT K) (GRID_WIDTH K) (grid (clear_grid K s)) \<and>
         binary (grid (clear_grid K s)) \<and>
         has_shape (GRID_HEIGHT K) (GRID_WIDTH K) (grid (fill_random K draw s)) \<and>
         binary (grid (fill_random K draw s))"
proof -
  have step: "\<exists>s'. update_grid K s = Some s' \<and>
            has_shape (GRID_HEIGHT K) (GRID_WIDTH K) (grid s') \<and> binary (grid s')"
    by (simp add: update_grid_eq[OF assms(1)] has_shape_step_grid binary_step_grid)
  have toggle: "\<exists>s'. toggle_cell K x y s = Some s' \<and>
            has_shape (GRID_HEIGHT K) (GRID_WIDTH K) (grid s') \<and> binary (grid s')"
    by (rule toggle_cell_eq[OF assms(1,2,5)])
  have place: "\<exists>s'. place_pattern K p x y s = Some s' \<and>
            has_shape (GRID_HEIGHT K) (GRID_WIDTH K) (grid s') \<and> binary (grid s')"
  proof -
    from place_pattern_eq[OF assms(1,3,5), of x y] obtain s' where
      s: "place_pattern K p x y s = Some s'"
      and sh: "has_shape (GRID_HEIGHT K) (GRID_WIDTH K) (grid s')"
      and c: "if 0 \<le> (x - grid_offset_x s) div CELL_SIZE K \<and>
          (x - grid_offset_x s) div CELL_SIZE K < int (GRID_WIDTH K) \<and>
          0 \<le> (y - grid_offset_y s) div CELL_SIZE K \<and>
          (y - grid_offset_y s) div CELL_SIZE K < int (GRID_HEIGHT K)
       then (\<forall>r < GRID_HEIGHT K. \<forall>c < GRID_WIDTH K.
               grid s' ! r ! c =
                 stamped p ((x - grid_offset_x s) div CELL_SIZE K)
                   ((y - grid_offset_y s) div CELL_SIZE K) (grid s) r c)
       else s' = s"
      by blast
    have "binary (grid s')"
    proof (cases "0 \<le> (x - grid_offset_x s) div CELL_SIZE K \<and>
          (x - grid_offset_x s) div CELL_SIZE K < int (GRID_WIDTH K) \<and>
          0 \<le> (y - grid_offset_y s) div CELL_SIZE K \<and>
          (y - grid_offset_y s) div CELL_SIZE K < int (GRID_HEIGHT K)")
      case True
      show ?thesis
      proof (rule binaryI[OF sh])
        fix r c assume rc: "r < GRID_HEIGHT K" "c < GRID_WIDTH K"
        then have "grid s' ! r ! c = stamped p ((x - grid_offset_x s) div CELL_SIZE K)
                   ((y - grid_offset_y s) div CELL_SIZE K) (grid s) r c"
          using c True by simp
        then show "grid s' ! r ! c = 0 \<or> grid s' ! r ! c = 1"
          using stamped_binary[OF assms(1,2,3,4) rc] by simp
      qed
    next
      case False
      then show ?thesis using c assms(2) by simp
    qed
    then show ?thesis using s sh by blast
  qed
  have rest: "has_shape (GRID_HEIGHT K) (GRID_WIDTH K) (grid (clear_grid K s)) \<and>
         binary (grid (clear_grid K s)) \<and>
         has_shape (GRID_HEIGHT K) (GRID_WIDTH K) (grid (fill_random K draw s)) \<and>
         binary (grid (fill_random K draw s))"
    by (simp add: clear_grid_def fill_random_def Let_def has_shape_zeros binary_zeros
        shape_random_choice binary_random_choice)
  show ?thesis using step toggle place rest by blast
qed

theorem grid_operations_keep_well_formed_witness:
  "has_shape (GRID_HEIGHT tiny) (GRID_WIDTH tiny) (grid blinker_game) \<and>
   binary (grid blinker_game) \<and> pattern_ok dead_alive \<and> binary (pattern dead_alive) \<and>
   CELL_SIZE tiny \<noteq> 0 \<and>
   (\<exists>s'. update_grid tiny blinker_game = Some s' \<and> has_shape 3 3 (grid s') \<and> binary (grid s')) \<and>
   (\<exists>s'. toggle_cell tiny 0 0 blinker_game = Some s' \<and> has_shape 3 3 (grid s') \<and> binary (grid s')) \<and>
   (\<exists>s'. place_pattern tiny dead_alive 12 0 blinker_game = Some s' \<and> has_shape 3 3 (grid s') \<and>
      binary (grid s')) \<and>
   has_shape 3 3 (grid (clear_grid tiny blinker_game)) \<and>
   binary (grid (fill_random tiny (\<lambda>r c. r + c) blinker_game))"
proof -
  have h1: "has_shape (GRID_HEIGHT tiny) (GRID_WIDTH tiny) (grid blinker_game)"
    by (simp add: has_shape_def tiny_def blinker_game_def blinker_grid_def)
  have h2: "binary (grid blinker_game)"
    by (simp add: binary_def blinker_game_def blinker_grid_def)
  have h3: "pattern_ok dead_alive" by (simp add: pattern_ok_def has_shape_def dead_alive_def)
  have h4: "binary (pattern dead_alive)" by (simp add: binary_def dead_alive_def)
  have h5: "CELL_SIZE tiny \<noteq> 0" by (simp add: tiny_def)
  have t: "GRID_HEIGHT tiny = 3" "GRID_WIDTH tiny = 3" by (simp_all add: tiny_def)
  show ?thesis
    using h1 h2 h3 h4 h5
      grid_operations_keep_well_formed [OF h1 h2 h3 h4 h5, of 0 0 "\<lambda>r c. r + c"]
      grid_operations_keep_well_formed [OF h1 h2 h3 h4 h5, of 12 0 "\<lambda>r c. r + c"]
    unfolding t by blast
qed

end
